theory Spec2Isabelle
  imports Complex_Main
begin

text \<open>
  A model of the backend of the product sync application: the bulk sync of products
  (\<open>POST /sync\<close> in routes/products.js), the log listing and the CSV export
  (\<open>GET /\<close> and \<open>GET /export/csv\<close> in routes/logs.js), the retention purge
  (\<open>DELETE /cleanup\<close>), and the two schemas they write through (models/Product.js,
  models/SyncLog.js). A handler is a function from the request and the state of the
  application to its answer and the new state; an exception is a value.
\<close>

section \<open>Values shared by the route handlers\<close>

text \<open>
  Timestamps are milliseconds since the epoch, object ids are natural numbers.
  A string that may be \<open>undefined\<close> in the JavaScript is a \<open>string option\<close>; the
  result of \<open>parseInt\<close> is an \<open>int option\<close>, \<open>None\<close> standing for \<open>NaN\<close>.
\<close>

type_synonym object_id = nat
type_synonym date = int

text \<open>\<open>if (x)\<close> on a string that may be undefined: the empty string is falsy.\<close>

definition truthy :: "string option \<Rightarrow> bool" where
  "truthy x = (case x of None \<Rightarrow> False | Some s \<Rightarrow> s \<noteq> [])"

text \<open>\<open>parseInt(x) || d\<close>: \<open>NaN\<close> and \<open>0\<close> are falsy, so both give the default.\<close>

definition or_default :: "int option \<Rightarrow> int \<Rightarrow> int" where
  "or_default x d = (case x of None \<Rightarrow> d | Some n \<Rightarrow> if n = 0 then d else n)"

text \<open>A value interpolated into a template string.\<close>

definition js_str :: "string option \<Rightarrow> string" where
  "js_str x = (case x of None \<Rightarrow> ''undefined'' | Some s \<Rightarrow> s)"

fun show_nat :: "nat \<Rightarrow> string" where
  "show_nat n =
     (if n < 10 then [char_of (48 + n)]
      else show_nat (n div 10) @ [char_of (48 + n mod 10)])"

declare show_nat.simps [simp del]

definition show_int :: "int \<Rightarrow> string" where
  "show_int i = (if i < 0 then CHR ''-'' # show_nat (nat (- i)) else show_nat (nat i))"

text \<open>
  An exception travelling through the handlers. \<open>ValidationError\<close> carries the model
  name and the invalid paths, \<open>StoreError\<close> the message of a store that rejected a
  call, \<open>CastError\<close> the path of a query value that could not be cast. The message
  of a validation error names the model and the paths; the library's wording for each
  path is not modelled.
\<close>

datatype err =
    ValidationError string "string list"
  | StoreError string
  | CastError string
  | TypeError string

fun join :: "string \<Rightarrow> string list \<Rightarrow> string" where
  "join sep [] = []"
| "join sep [x] = x"
| "join sep (x # y # ys) = x @ sep @ join sep (y # ys)"

fun err_message :: "err \<Rightarrow> string" where
  "err_message (ValidationError m ps) = m @ '' validation failed: '' @ join '', '' ps"
| "err_message (StoreError m) = m"
| "err_message (CastError p) = ''Cast failed for path '' @ p"
| "err_message (TypeError m) = m"

text \<open>The answer of a handler that did not send its payload: a status and a message.\<close>

datatype http_error = Http nat string

record user =
  u_id :: object_id
  u_username :: string
  u_role :: string

record req_meta =
  rq_ip :: "string option"
  rq_userAgent :: "string option"

section \<open>The environment: store outcomes and the clock\<close>

text \<open>
  Every call that reaches the document store takes the next event of its collection:
  how long the call took, and whether the store rejected it (with which message). A
  collection with no event left accepts the call at once.
\<close>

record event =
  ev_fault :: "string option"
  ev_elapsed :: nat

definition next_event :: "event list \<Rightarrow> event \<times> event list" where
  "next_event evs =
     (case evs of [] \<Rightarrow> (\<lparr>ev_fault = None, ev_elapsed = 0\<rparr>, []) | e # es \<Rightarrow> (e, es))"

text \<open>The store accepts its next \<open>n\<close> calls.\<close>

definition accepts :: "nat \<Rightarrow> event list \<Rightarrow> bool" where
  "accepts n evs = list_all (\<lambda>e. ev_fault e = None) (take n evs)"

definition accepts_all :: "event list \<Rightarrow> bool" where
  "accepts_all evs = list_all (\<lambda>e. ev_fault e = None) evs"

section \<open>Products (models/Product.js)\<close>

text \<open>
  \<open>productData\<close> is one element of the batch, every field optional. A stored product
  has its required fields. The \<open>images\<close> and \<open>syncErrors\<close> arrays and the timestamps
  \<open>createdAt\<close> and \<open>updatedAt\<close>, which the handlers modelled here never read, are left
  out.
\<close>

record item =
  i_sku :: "string option"
  i_name :: "string option"
  i_description :: "string option"
  i_price :: "real option"
  i_category :: "string option"
  i_stock :: "real option"
  i_status :: "string option"
  i_vendor :: "string option"
  i_tags :: "string list option"

text \<open>
  An element of the batch as it arrives in the JSON body: \<open>null\<close>, an object, or any
  other value (a number, a string, a boolean, an array; kept as its JSON text), which has
  none of the fields the handler reads. A field of an object, when present, has the
  type of its schema path.
\<close>

datatype element = JNull | JObject item | JValue string

definition no_fields :: item where
  "no_fields = \<lparr>i_sku = None, i_name = None, i_description = None, i_price = None,
     i_category = None, i_stock = None, i_status = None, i_vendor = None, i_tags = None\<rparr>"

text \<open>The fields of an element; reading a field of \<open>null\<close> throws a TypeError.\<close>

definition fields_of :: "element \<Rightarrow> item option" where
  "fields_of x = (case x of JNull \<Rightarrow> None | JObject it \<Rightarrow> Some it | JValue v \<Rightarrow> Some no_fields)"

text \<open>\<open>productData.sku\<close>, where it can be read.\<close>

definition sku_of :: "element \<Rightarrow> string option" where
  "sku_of x = (case fields_of x of None \<Rightarrow> None | Some it \<Rightarrow> i_sku it)"

record product =
  p_id :: object_id
  p_name :: string
  p_sku :: string
  p_description :: "string option"
  p_price :: real
  p_category :: string
  p_stock :: real
  p_status :: string
  p_vendor :: "string option"
  p_tags :: "string list"
  p_lastSyncedAt :: date
  p_syncSource :: string
  p_syncStatus :: string

record results =
  r_created :: nat
  r_updated :: nat
  r_errors :: nat
  r_total :: nat

section \<open>Sync log entries (models/SyncLog.js)\<close>

datatype details =
    SyncErrorDetails string element
  | ResultDetails results
  | CleanupDetails nat int

record synclog =
  l_operation :: string
  l_entityType :: string
  l_entityId :: "object_id option"
  l_message :: string
  l_details :: "details option"
  l_userId :: "object_id option"
  l_username :: "string option"
  l_level :: string
  l_source :: string
  l_ipAddress :: "string option"
  l_userAgent :: "string option"
  l_duration :: "int option"
  l_status :: string
  l_createdAt :: date

text \<open>
  The object handed to \<open>createLog\<close>; \<open>level\<close> and \<open>source\<close> have schema defaults.
  The \<open>metadata\<close> field, which no handler sets, is left out.
\<close>

record logData =
  d_operation :: string
  d_entityType :: string
  d_entityId :: "object_id option"
  d_message :: string
  d_details :: "details option"
  d_userId :: "object_id option"
  d_username :: "string option"
  d_level :: "string option"
  d_source :: "string option"
  d_ipAddress :: "string option"
  d_userAgent :: "string option"
  d_duration :: "int option"

definition operation_enum :: "string list" where
  "operation_enum = [''create'', ''update'', ''delete'', ''sync'', ''error'', ''info'', ''warning'']"

definition entityType_enum :: "string list" where
  "entityType_enum = [''product'', ''user'', ''system'', ''auth'']"

definition level_enum :: "string list" where
  "level_enum = [''info'', ''warning'', ''error'', ''success'']"

definition source_enum :: "string list" where
  "source_enum = [''api'', ''web'', ''system'', ''sync'']"

definition with_default :: "string option \<Rightarrow> string \<Rightarrow> string" where
  "with_default x d = (case x of None \<Rightarrow> d | Some s \<Rightarrow> s)"

text \<open>The paths of a log document that fail the schema's validators.\<close>

definition log_errors :: "logData \<Rightarrow> string list" where
  "log_errors d =
     (if d_operation d \<in> set operation_enum then [] else [''operation'']) @
     (if d_entityType d \<in> set entityType_enum then [] else [''entityType'']) @
     (if d_message d = [] then [''message''] else []) @
     (if with_default (d_level d) ''info'' \<in> set level_enum then [] else [''level'']) @
     (if with_default (d_source d) ''web'' \<in> set source_enum then [] else [''source''])"

definition new_SyncLog :: "logData \<Rightarrow> date \<Rightarrow> synclog" where
  "new_SyncLog d now =
     \<lparr>l_operation = d_operation d, l_entityType = d_entityType d,
      l_entityId = d_entityId d, l_message = d_message d, l_details = d_details d,
      l_userId = d_userId d, l_username = d_username d,
      l_level = with_default (d_level d) ''info'',
      l_source = with_default (d_source d) ''web'',
      l_ipAddress = d_ipAddress d, l_userAgent = d_userAgent d,
      l_duration = d_duration d, l_status = ''success'', l_createdAt = now\<rparr>"

section \<open>The state of the application\<close>

record state =
  products :: "product list"
  logs :: "synclog list"
  users :: "(object_id \<times> string) list"
  clock :: date
  next_id :: object_id
  product_env :: "event list"
  log_env :: "event list"

text \<open>
  \<open>SyncLog.createLog\<close>: build the document, save it, return it; whatever \<open>save\<close>
  throws is thrown again. Validation runs before the store is reached.
\<close>

definition createLog :: "logData \<Rightarrow> state \<Rightarrow> (err + synclog) \<times> state" where
  "createLog d s =
     (if log_errors d \<noteq> [] then (Inl (ValidationError ''SyncLog'' (log_errors d)), s)
      else
        let (ev, rest) = next_event (log_env s);
            entry = new_SyncLog d (clock s);
            s1 = s\<lparr>log_env := rest, clock := clock s + int (ev_elapsed ev)\<rparr>
        in case ev_fault ev of
             Some m \<Rightarrow> (Inl (StoreError m), s1)
           | None \<Rightarrow> (Inr entry, s1\<lparr>logs := logs s1 @ [entry]\<rparr>))"

section \<open>Retention: DELETE /cleanup (routes/logs.js)\<close>

definition day_ms :: int where
  "day_ms = 86400000"

text \<open>
  The local time zone of the server, as the runtime sees it: the offset of local time
  from UTC at a UTC instant (\<open>LocalTZA(t, true)\<close>) and at a local time value
  (\<open>LocalTZA(t, false)\<close>), in milliseconds. The two differ around a daylight-saving
  switch; in a zone with no switch both are one constant.
\<close>

record zone =
  tza_utc :: "date \<Rightarrow> int"
  tza_local :: "date \<Rightarrow> int"

text \<open>A time value beyond 8.64e15 ms on either side of the epoch is an Invalid Date.\<close>

definition max_time :: int where
  "max_time = 8640000000000000"

definition TimeClip :: "int \<Rightarrow> date option" where
  "TimeClip t = (if \<bar>t\<bar> \<le> max_time then Some t else None)"

text \<open>
  \<open>cutoffDate = new Date(); cutoffDate.setDate(cutoffDate.getDate() - daysToKeep)\<close>.
  \<open>setDate\<close> works on the local time value: the same time of day, \<open>daysToKeep\<close>
  calendar days earlier, turned back into UTC and clipped to the range of dates.
  \<open>None\<close> is the Invalid Date.
\<close>

definition cutoff_date :: "zone \<Rightarrow> date \<Rightarrow> int \<Rightarrow> date option" where
  "cutoff_date Z now daysToKeep =
     (let t = now + tza_utc Z now;
          newDate = t - daysToKeep * day_ms
      in TimeClip (newDate - tza_local Z newDate))"

text \<open>\<open>SyncLog.deleteMany({createdAt: {$lt: cutoff}})\<close>, returning \<open>deletedCount\<close>.\<close>

definition deleteMany_before :: "date \<Rightarrow> state \<Rightarrow> (err + nat) \<times> state" where
  "deleteMany_before cutoff s =
     (let (ev, rest) = next_event (log_env s);
          s1 = s\<lparr>log_env := rest, clock := clock s + int (ev_elapsed ev)\<rparr>
      in case ev_fault ev of
           Some m \<Rightarrow> (Inl (StoreError m), s1)
         | None \<Rightarrow>
             (Inr (length (filter (\<lambda>e. l_createdAt e < cutoff) (logs s1))),
              s1\<lparr>logs := filter (\<lambda>e. \<not> l_createdAt e < cutoff) (logs s1)\<rparr>))"

definition cleanup_log :: "user \<Rightarrow> req_meta \<Rightarrow> nat \<Rightarrow> int \<Rightarrow> logData" where
  "cleanup_log u rq deletedCount daysToKeep =
     \<lparr>d_operation = ''delete'', d_entityType = ''system'', d_entityId = None,
      d_message = ''Log cleanup completed: '' @ show_nat deletedCount @
        '' logs older than '' @ show_int daysToKeep @ '' days were deleted'',
      d_details = Some (CleanupDetails deletedCount daysToKeep),
      d_userId = Some (u_id u), d_username = Some (u_username u),
      d_level = Some ''info'', d_source = Some ''web'',
      d_ipAddress = rq_ip rq, d_userAgent = rq_userAgent rq, d_duration = None\<rparr>"

text \<open>
  The handler. An Invalid Date as the cutoff makes the filter of \<open>deleteMany\<close> fail to
  cast, before the store is reached.
\<close>

definition DELETE_cleanup ::
  "zone \<Rightarrow> user \<Rightarrow> req_meta \<Rightarrow> int option \<Rightarrow> state \<Rightarrow> (http_error + nat) \<times> state" where
  "DELETE_cleanup Z u rq days s =
     (if u_role u \<noteq> ''admin'' then (Inl (Http 403 ''Admin access required''), s)
      else
        let daysToKeep = or_default days 30
        in case cutoff_date Z (clock s) daysToKeep of
             None \<Rightarrow> (Inl (Http 500 ''Server error''), s)
           | Some cutoffDate \<Rightarrow>
               (case deleteMany_before cutoffDate s of
                  (Inl e, s1) \<Rightarrow> (Inl (Http 500 ''Server error''), s1)
                | (Inr n, s1) \<Rightarrow>
                    (case createLog (cleanup_log u rq n daysToKeep) s1 of
                       (Inl e, s2) \<Rightarrow> (Inl (Http 500 ''Server error''), s2)
                     | (Inr entry, s2) \<Rightarrow> (Inr n, s2))))"

section \<open>Bulk sync: POST /sync (routes/products.js)\<close>

definition status_enum :: "string list" where
  "status_enum = [''active'', ''inactive'', ''discontinued'']"

definition syncSource_enum :: "string list" where
  "syncSource_enum = [''manual'', ''api'', ''csv'', ''xml'']"

definition syncStatus_enum :: "string list" where
  "syncStatus_enum = [''pending'', ''synced'', ''error'']"

text \<open>
  The schema's \<open>trim: true\<close> is \<open>String.prototype.trim\<close>. A string is the list of the
  bytes of its UTF-8 form; the white space of JavaScript (the code points 9 to 13, 32,
  A0, 1680, 2000 to 200A, 2028, 2029, 202F, 205F, 3000 and FEFF) is the list of their
  encodings.
\<close>

definition white_space :: "string list" where
  "white_space =
     [[CHR 0x09], [CHR 0x0A], [CHR 0x0B], [CHR 0x0C], [CHR 0x0D], [CHR 0x20],
      [CHR 0xC2, CHR 0xA0], [CHR 0xE1, CHR 0x9A, CHR 0x80],
      [CHR 0xE2, CHR 0x80, CHR 0x80], [CHR 0xE2, CHR 0x80, CHR 0x81],
      [CHR 0xE2, CHR 0x80, CHR 0x82], [CHR 0xE2, CHR 0x80, CHR 0x83],
      [CHR 0xE2, CHR 0x80, CHR 0x84], [CHR 0xE2, CHR 0x80, CHR 0x85],
      [CHR 0xE2, CHR 0x80, CHR 0x86], [CHR 0xE2, CHR 0x80, CHR 0x87],
      [CHR 0xE2, CHR 0x80, CHR 0x88], [CHR 0xE2, CHR 0x80, CHR 0x89],
      [CHR 0xE2, CHR 0x80, CHR 0x8A], [CHR 0xE2, CHR 0x80, CHR 0xA8],
      [CHR 0xE2, CHR 0x80, CHR 0xA9], [CHR 0xE2, CHR 0x80, CHR 0xAF],
      [CHR 0xE2, CHR 0x81, CHR 0x9F], [CHR 0xE3, CHR 0x80, CHR 0x80],
      [CHR 0xEF, CHR 0xBB, CHR 0xBF]]"

text \<open>The length of the token of \<open>ws\<close> a string starts with, 0 when it starts with none.\<close>

definition token_len :: "string list \<Rightarrow> string \<Rightarrow> nat" where
  "token_len ws s =
     (case find (\<lambda>w. w \<noteq> [] \<and> take (length w) s = w) ws of
        None \<Rightarrow> 0 | Some w \<Rightarrow> length w)"

function strip :: "string list \<Rightarrow> string \<Rightarrow> string" where
  "strip ws s = (if token_len ws s = 0 then s else strip ws (drop (token_len ws s) s))"
  by pat_completeness auto
termination
proof (relation "measure (\<lambda>(ws, s). length s)")
  show "wf (measure (\<lambda>(ws, s :: string). length s))" by simp
next
  fix ws :: "string list" and s :: string
  assume n: "token_len ws s \<noteq> 0"
  have "s \<noteq> []"
  proof
    assume "s = []"
    then have "find (\<lambda>w. w \<noteq> [] \<and> take (length w) s = w) ws = None"
      by (auto simp: find_None_iff)
    with n show False by (simp add: token_len_def)
  qed
  with n show "((ws, drop (token_len ws s) s), (ws, s)) \<in> measure (\<lambda>(ws, s). length s)"
    by simp
qed

declare strip.simps [simp del]

definition trim :: "string \<Rightarrow> string" where
  "trim s = rev (strip (map rev white_space) (rev (strip white_space s)))"

definition required_str :: "string option \<Rightarrow> string" where
  "required_str x = (case x of None \<Rightarrow> [] | Some v \<Rightarrow> trim v)"

text \<open>
  \<open>new Product({...productData, lastSyncedAt: new Date(), syncSource: source,
  syncStatus: 'synced'})\<close>. A required string that is missing shows as the empty string,
  which the \<open>required\<close> validator refuses like a missing one; \<open>stock\<close> and \<open>status\<close>
  take their schema defaults.
\<close>

definition new_Product :: "object_id \<Rightarrow> item \<Rightarrow> date \<Rightarrow> string \<Rightarrow> product" where
  "new_Product i it now src =
     \<lparr>p_id = i, p_name = required_str (i_name it), p_sku = required_str (i_sku it),
      p_description = map_option trim (i_description it),
      p_price = (case i_price it of None \<Rightarrow> 0 | Some x \<Rightarrow> x),
      p_category = required_str (i_category it),
      p_stock = (case i_stock it of None \<Rightarrow> 0 | Some n \<Rightarrow> n),
      p_status = with_default (i_status it) ''active'',
      p_vendor = map_option trim (i_vendor it),
      p_tags = (case i_tags it of None \<Rightarrow> [] | Some ts \<Rightarrow> ts),
      p_lastSyncedAt = now, p_syncSource = src, p_syncStatus = ''synced''\<rparr>"

text \<open>\<open>Object.assign(existingProduct, productData)\<close>: the fields present overwrite.\<close>

definition assign :: "product \<Rightarrow> item \<Rightarrow> product" where
  "assign p it =
     p\<lparr>p_name := (case i_name it of None \<Rightarrow> p_name p | Some v \<Rightarrow> trim v),
       p_sku := (case i_sku it of None \<Rightarrow> p_sku p | Some v \<Rightarrow> trim v),
       p_description :=
         (case i_description it of None \<Rightarrow> p_description p | Some v \<Rightarrow> Some (trim v)),
       p_price := (case i_price it of None \<Rightarrow> p_price p | Some x \<Rightarrow> x),
       p_category := (case i_category it of None \<Rightarrow> p_category p | Some v \<Rightarrow> trim v),
       p_stock := (case i_stock it of None \<Rightarrow> p_stock p | Some n \<Rightarrow> n),
       p_status := (case i_status it of None \<Rightarrow> p_status p | Some v \<Rightarrow> v),
       p_vendor := (case i_vendor it of None \<Rightarrow> p_vendor p | Some v \<Rightarrow> Some (trim v)),
       p_tags := (case i_tags it of None \<Rightarrow> p_tags p | Some ts \<Rightarrow> ts)\<rparr>"

text \<open>The paths of a product document that fail the schema's validators.\<close>

definition product_errors :: "product \<Rightarrow> string list" where
  "product_errors p =
     (if p_name p = [] then [''name''] else []) @
     (if p_sku p = [] then [''sku''] else []) @
     (if p_price p < 0 then [''price''] else []) @
     (if p_category p = [] then [''category''] else []) @
     (if p_stock p < 0 then [''stock''] else []) @
     (if p_status p \<in> set status_enum then [] else [''status'']) @
     (if p_syncSource p \<in> set syncSource_enum then [] else [''syncSource'']) @
     (if p_syncStatus p \<in> set syncStatus_enum then [] else [''syncStatus''])"

text \<open>A new document has no default for the required \<open>price\<close>.\<close>

definition new_product_errors :: "item \<Rightarrow> product \<Rightarrow> string list" where
  "new_product_errors it p =
     (if i_price it = None then [''price''] else []) @ product_errors p"

text \<open>
  \<open>Product.findOne({sku: productData.sku})\<close>. The schema's setters run on the query
  value, so the SKU is trimmed. An item with no SKU asks for \<open>{sku: undefined}\<close>, which
  the driver sends as a query for null; no stored product matches, each has a SKU.
\<close>

definition findOne_sku :: "string option \<Rightarrow> state \<Rightarrow> (err + product option) \<times> state" where
  "findOne_sku k s =
     (let (ev, rest) = next_event (product_env s);
          s1 = s\<lparr>product_env := rest, clock := clock s + int (ev_elapsed ev)\<rparr>
      in case ev_fault ev of
           Some m \<Rightarrow> (Inl (StoreError m), s1)
         | None \<Rightarrow>
             (Inr (case k of None \<Rightarrow> None
                   | Some v \<Rightarrow> find (\<lambda>p. p_sku p = trim v) (products s1)), s1))"

text \<open>
  \<open>doc.save()\<close>: validation first; then the store, which keeps the SKU unique (the
  schema's unique index) and replaces the document of the same id or appends a new one.
\<close>

definition put_product :: "product \<Rightarrow> product list \<Rightarrow> product list" where
  "put_product p ps =
     (if p_id p \<in> set (map p_id ps)
      then map (\<lambda>q. if p_id q = p_id p then p else q) ps else ps @ [p])"

definition save_product :: "string list \<Rightarrow> product \<Rightarrow> state \<Rightarrow> (err + unit) \<times> state" where
  "save_product errs p s =
     (if errs \<noteq> [] then (Inl (ValidationError ''Product'' errs), s)
      else
        let (ev, rest) = next_event (product_env s);
            s1 = s\<lparr>product_env := rest, clock := clock s + int (ev_elapsed ev)\<rparr>
        in case ev_fault ev of
             Some m \<Rightarrow> (Inl (StoreError m), s1)
           | None \<Rightarrow>
               if p_sku p \<in> set (map p_sku (filter (\<lambda>q. p_id q \<noteq> p_id p) (products s1)))
               then (Inl (StoreError ''E11000 duplicate key error''), s1)
               else (Inr (), s1\<lparr>products := put_product p (products s1)\<rparr>))"

definition start_log :: "user \<Rightarrow> req_meta \<Rightarrow> string \<Rightarrow> nat \<Rightarrow> logData" where
  "start_log u rq src n =
     \<lparr>d_operation = ''sync'', d_entityType = ''product'', d_entityId = None,
      d_message = ''Bulk sync started for '' @ show_nat n @ '' products'',
      d_details = None, d_userId = Some (u_id u), d_username = Some (u_username u),
      d_level = Some ''info'', d_source = Some src,
      d_ipAddress = rq_ip rq, d_userAgent = rq_userAgent rq, d_duration = None\<rparr>"

definition item_log :: "user \<Rightarrow> string \<Rightarrow> string \<Rightarrow> object_id \<Rightarrow> item \<Rightarrow> logData" where
  "item_log u src operation i it =
     \<lparr>d_operation = operation, d_entityType = ''product'', d_entityId = Some i,
      d_message = ''Product synced ('' @ operation @ ''d): '' @ js_str (i_name it) @
        '' (SKU: '' @ js_str (i_sku it) @ '')'',
      d_details = None, d_userId = Some (u_id u), d_username = Some (u_username u),
      d_level = Some ''success'', d_source = Some src,
      d_ipAddress = None, d_userAgent = None, d_duration = None\<rparr>"

definition error_log :: "user \<Rightarrow> string \<Rightarrow> element \<Rightarrow> err \<Rightarrow> logData" where
  "error_log u src x e =
     \<lparr>d_operation = ''error'', d_entityType = ''product'', d_entityId = None,
      d_message = ''Sync error for product SKU '' @ js_str (sku_of x) @ '': '' @
        err_message e,
      d_details = Some (SyncErrorDetails (err_message e) x),
      d_userId = Some (u_id u), d_username = Some (u_username u),
      d_level = Some ''error'', d_source = Some src,
      d_ipAddress = None, d_userAgent = None, d_duration = None\<rparr>"

definition summary_log :: "user \<Rightarrow> req_meta \<Rightarrow> string \<Rightarrow> results \<Rightarrow> int \<Rightarrow> logData" where
  "summary_log u rq src r duration =
     \<lparr>d_operation = ''sync'', d_entityType = ''product'', d_entityId = None,
      d_message = ''Bulk sync completed: '' @ show_nat (r_created r) @ '' created, '' @
        show_nat (r_updated r) @ '' updated, '' @ show_nat (r_errors r) @ '' errors'',
      d_details = Some (ResultDetails r),
      d_userId = Some (u_id u), d_username = Some (u_username u),
      d_level = Some (if r_errors r > 0 then ''warning'' else ''success''),
      d_source = Some src,
      d_ipAddress = rq_ip rq, d_userAgent = rq_userAgent rq, d_duration = Some duration\<rparr>"

text \<open>
  The body of the \<open>try\<close> of one item, once \<open>productData.sku\<close> has been read. The
  result is the exception that left the block (if any), the state and the counters as
  the block left them: a counter is bumped after \<open>save\<close> and before the item's audit
  entry is written.
\<close>

definition sync_object ::
  "user \<Rightarrow> string \<Rightarrow> item \<Rightarrow> state \<Rightarrow> results \<Rightarrow> err option \<times> state \<times> results" where
  "sync_object u src it s r =
     (case findOne_sku (i_sku it) s of
        (Inl e, s1) \<Rightarrow> (Some e, s1, r)
      | (Inr (Some existingProduct), s1) \<Rightarrow>
          (let p = (assign existingProduct it)
                 \<lparr>p_lastSyncedAt := clock s1, p_syncSource := src, p_syncStatus := ''synced''\<rparr>
           in case save_product (product_errors p) p s1 of
                (Inl e, s2) \<Rightarrow> (Some e, s2, r)
              | (Inr u1, s2) \<Rightarrow>
                  (let r1 = r\<lparr>r_updated := r_updated r + 1\<rparr>
                   in case createLog (item_log u src ''update'' (p_id p) it) s2 of
                        (Inl e, s3) \<Rightarrow> (Some e, s3, r1)
                      | (Inr entry, s3) \<Rightarrow> (None, s3, r1)))
      | (Inr None, s1) \<Rightarrow>
          (let p = new_Product (next_id s1) it (clock s1) src;
               s1' = s1\<lparr>next_id := next_id s1 + 1\<rparr>
           in case save_product (new_product_errors it p) p s1' of
                (Inl e, s2) \<Rightarrow> (Some e, s2, r)
              | (Inr u1, s2) \<Rightarrow>
                  (let r1 = r\<lparr>r_created := r_created r + 1\<rparr>
                   in case createLog (item_log u src ''create'' (p_id p) it) s2 of
                        (Inl e, s3) \<Rightarrow> (Some e, s3, r1)
                      | (Inr entry, s3) \<Rightarrow> (None, s3, r1))))"

definition null_sku :: err where
  "null_sku = TypeError ''Cannot read properties of null (reading sku)''"

text \<open>
  The \<open>try\<close> of one element: \<open>productData.sku\<close> is read first, as the argument of
  \<open>findOne\<close>, and throws when the element is \<open>null\<close>.
\<close>

definition sync_try ::
  "user \<Rightarrow> string \<Rightarrow> element \<Rightarrow> state \<Rightarrow> results \<Rightarrow> err option \<times> state \<times> results" where
  "sync_try u src x s r =
     (case fields_of x of
        None \<Rightarrow> (Some null_sku, s, r)
      | Some it \<Rightarrow> sync_object u src it s r)"

text \<open>
  One turn of the loop: the \<open>try\<close>, and the \<open>catch\<close> that counts the error and writes
  the error entry. The message of that entry reads \<open>productData.sku\<close> again, which
  throws again when the element is \<open>null\<close>; that exception, like one of the write
  itself, leaves the loop.
\<close>

definition sync_item ::
  "user \<Rightarrow> string \<Rightarrow> element \<Rightarrow> state \<Rightarrow> results \<Rightarrow> err option \<times> state \<times> results" where
  "sync_item u src x s r =
     (case sync_try u src x s r of
        (None, s1, r1) \<Rightarrow> (None, s1, r1)
      | (Some e, s1, r1) \<Rightarrow>
          (let r2 = r1\<lparr>r_errors := r_errors r1 + 1\<rparr>
           in case fields_of x of
                None \<Rightarrow> (Some null_sku, s1, r2)
              | Some it \<Rightarrow>
                  (case createLog (error_log u src x e) s1 of
                     (Inl e', s2) \<Rightarrow> (Some e', s2, r2)
                   | (Inr entry, s2) \<Rightarrow> (None, s2, r2))))"

fun sync_loop ::
  "user \<Rightarrow> string \<Rightarrow> element list \<Rightarrow> state \<Rightarrow> results \<Rightarrow> err option \<times> state \<times> results" where
  "sync_loop u src [] s r = (None, s, r)"
| "sync_loop u src (it # its) s r =
     (case sync_item u src it s r of
        (Some e, s1, r1) \<Rightarrow> (Some e, s1, r1)
      | (None, s1, r1) \<Rightarrow> sync_loop u src its s1 r1)"

record sync_body =
  b_products :: "element list option"
  b_source :: "string option"

text \<open>
  The handler. \<open>b_products = None\<close> is a body whose \<open>products\<close> is not an array. The
  answer is the result summary with the duration, or the status of a failure.
\<close>

definition POST_sync ::
  "user \<Rightarrow> req_meta \<Rightarrow> sync_body \<Rightarrow> state \<Rightarrow> (http_error + results \<times> int) \<times> state" where
  "POST_sync u rq body s =
     (case b_products body of
        None \<Rightarrow> (Inl (Http 400 ''Products must be an array''), s)
      | Some ps \<Rightarrow>
          (let src = with_default (b_source body) ''api'';
               r0 = \<lparr>r_created = 0, r_updated = 0, r_errors = 0, r_total = length ps\<rparr>;
               startTime = clock s
           in case createLog (start_log u rq src (length ps)) s of
                (Inl e, s1) \<Rightarrow> (Inl (Http 500 ''Server error during sync''), s1)
              | (Inr entry, s1) \<Rightarrow>
                  (case sync_loop u src ps s1 r0 of
                     (Some e, s2, r) \<Rightarrow> (Inl (Http 500 ''Server error during sync''), s2)
                   | (None, s2, r) \<Rightarrow>
                       (let duration = clock s2 - startTime
                        in case createLog (summary_log u rq src r duration) s2 of
                             (Inl e, s3) \<Rightarrow> (Inl (Http 500 ''Server error during sync''), s3)
                           | (Inr entry', s3) \<Rightarrow> (Inr (r, duration), s3)))))"

text \<open>The number of items a result summary accounts for.\<close>

definition counted :: "results \<Rightarrow> nat" where
  "counted r = r_created r + r_updated r + r_errors r"

section \<open>Log queries: GET / and GET /export/csv (routes/logs.js)\<close>

text \<open>
  What the handlers take from the JavaScript runtime and the driver, as parameters: the
  regular expressions of \<open>$regex\<close> with option \<open>i\<close> (whether a pattern compiles, and
  whether it matches a message), \<open>new Date(string)\<close> (\<open>None\<close> for an invalid date) and
  the cast of a query string to an object id (\<open>None\<close> when the cast fails).
\<close>

record jslib =
  regex_valid :: "string \<Rightarrow> bool"
  regex_test :: "string \<Rightarrow> string \<Rightarrow> bool"
  new_Date :: "string \<Rightarrow> date option"
  cast_ObjectId :: "string \<Rightarrow> object_id option"

record logs_query =
  q_page :: "int option"
  q_limit :: "int option"
  q_operation :: "string option"
  q_entityType :: "string option"
  q_level :: "string option"
  q_source :: "string option"
  q_userId :: "string option"
  q_startDate :: "string option"
  q_endDate :: "string option"
  q_search :: "string option"

text \<open>The filter object a handler builds: a key is set only under \<open>if (req.query.key)\<close>.\<close>

record log_filter =
  f_operation :: "string option"
  f_entityType :: "string option"
  f_level :: "string option"
  f_source :: "string option"
  f_userId :: "string option"
  f_gte :: "string option"
  f_lte :: "string option"
  f_regex :: "string option"

definition pick :: "string option \<Rightarrow> string option" where
  "pick x = (if truthy x then x else None)"

text \<open>The filter of \<open>GET /\<close>.\<close>

definition list_filter :: "logs_query \<Rightarrow> log_filter" where
  "list_filter q =
     \<lparr>f_operation = pick (q_operation q), f_entityType = pick (q_entityType q),
      f_level = pick (q_level q), f_source = pick (q_source q),
      f_userId = pick (q_userId q),
      f_gte = pick (q_startDate q), f_lte = pick (q_endDate q),
      f_regex = pick (q_search q)\<rparr>"

text \<open>The filter of \<open>GET /export/csv\<close>: \<open>userId\<close> and \<open>search\<close> are not read.\<close>

definition export_filter :: "logs_query \<Rightarrow> log_filter" where
  "export_filter q =
     \<lparr>f_operation = pick (q_operation q), f_entityType = pick (q_entityType q),
      f_level = pick (q_level q), f_source = pick (q_source q),
      f_userId = None,
      f_gte = pick (q_startDate q), f_lte = pick (q_endDate q),
      f_regex = None\<rparr>"

text \<open>Casting the filter to the schema: a bad object id, an invalid date, a bad pattern.\<close>

definition cast_error :: "jslib \<Rightarrow> log_filter \<Rightarrow> err option" where
  "cast_error L f =
     (if (case f_userId f of None \<Rightarrow> False | Some v \<Rightarrow> cast_ObjectId L v = None)
      then Some (CastError ''userId'')
      else if (case f_gte f of None \<Rightarrow> False | Some d \<Rightarrow> new_Date L d = None) \<or>
              (case f_lte f of None \<Rightarrow> False | Some d \<Rightarrow> new_Date L d = None)
      then Some (CastError ''createdAt'')
      else if (case f_regex f of None \<Rightarrow> False | Some p \<Rightarrow> \<not> regex_valid L p)
      then Some (StoreError ''Regular expression is invalid'')
      else None)"

definition opt_eq :: "string option \<Rightarrow> string \<Rightarrow> bool" where
  "opt_eq x v = (case x of None \<Rightarrow> True | Some w \<Rightarrow> v = w)"

definition matches :: "jslib \<Rightarrow> log_filter \<Rightarrow> synclog \<Rightarrow> bool" where
  "matches L f e =
     (opt_eq (f_operation f) (l_operation e) \<and> opt_eq (f_entityType f) (l_entityType e) \<and>
      opt_eq (f_level f) (l_level e) \<and> opt_eq (f_source f) (l_source e) \<and>
      (case f_userId f of None \<Rightarrow> True
       | Some v \<Rightarrow> (case l_userId e of None \<Rightarrow> False | Some i \<Rightarrow> cast_ObjectId L v = Some i)) \<and>
      (case f_gte f of None \<Rightarrow> True
       | Some d \<Rightarrow> (case new_Date L d of None \<Rightarrow> False | Some t \<Rightarrow> t \<le> l_createdAt e)) \<and>
      (case f_lte f of None \<Rightarrow> True
       | Some d \<Rightarrow> (case new_Date L d of None \<Rightarrow> False | Some t \<Rightarrow> l_createdAt e \<le> t)) \<and>
      (case f_regex f of None \<Rightarrow> True | Some p \<Rightarrow> regex_test L p (l_message e)))"

text \<open>\<open>.populate('userId', 'username')\<close>: the user of the entry, if it still exists.\<close>

definition populate :: "(object_id \<times> string) list \<Rightarrow> synclog \<Rightarrow> synclog \<times> string option" where
  "populate us e = (e, case l_userId e of None \<Rightarrow> None | Some i \<Rightarrow> map_of us i)"

text \<open>\<open>.sort({createdAt: -1})\<close>: newest first, entries of one instant in store order.\<close>

definition newest_first :: "synclog list \<Rightarrow> synclog list" where
  "newest_first es = sort_key (\<lambda>e. - l_createdAt e) es"

text \<open>
  \<open>.skip(skip).limit(limit)\<close>: the store refuses a negative skip, reads a negative
  limit as its absolute value and the limit 0 as no limit.
\<close>

definition window :: "int \<Rightarrow> int \<Rightarrow> 'a list \<Rightarrow> err + 'a list" where
  "window skip limit xs =
     (if skip < 0 then Inl (StoreError ''Skip value must be non-negative'')
      else if limit = 0 then Inr (drop (nat skip) xs)
      else Inr (take (nat \<bar>limit\<bar>) (drop (nat skip) xs)))"

text \<open>\<open>SyncLog.find(filter).populate(...).sort(...).skip(skip).limit(limit)\<close>.\<close>

definition query_logs ::
  "jslib \<Rightarrow> log_filter \<Rightarrow> int \<Rightarrow> int \<Rightarrow> state \<Rightarrow>
     (err + (synclog \<times> string option) list) \<times> state" where
  "query_logs L f skip limit s =
     (case cast_error L f of
        Some e \<Rightarrow> (Inl e, s)
      | None \<Rightarrow>
          let (ev, rest) = next_event (log_env s);
              s1 = s\<lparr>log_env := rest, clock := clock s + int (ev_elapsed ev)\<rparr>
          in case ev_fault ev of
               Some m \<Rightarrow> (Inl (StoreError m), s1)
             | None \<Rightarrow>
                 (window skip limit
                    (map (populate (users s1)) (newest_first (filter (matches L f) (logs s1)))),
                  s1))"

text \<open>\<open>SyncLog.countDocuments(filter)\<close>.\<close>

definition count_logs :: "jslib \<Rightarrow> log_filter \<Rightarrow> state \<Rightarrow> (err + nat) \<times> state" where
  "count_logs L f s =
     (case cast_error L f of
        Some e \<Rightarrow> (Inl e, s)
      | None \<Rightarrow>
          let (ev, rest) = next_event (log_env s);
              s1 = s\<lparr>log_env := rest, clock := clock s + int (ev_elapsed ev)\<rparr>
          in case ev_fault ev of
               Some m \<Rightarrow> (Inl (StoreError m), s1)
             | None \<Rightarrow> (Inr (length (filter (matches L f) (logs s1))), s1))"

record pagination =
  pg_current :: int
  pg_pages :: int
  pg_total :: nat
  pg_hasNext :: bool
  pg_hasPrev :: bool

definition GET_logs ::
  "jslib \<Rightarrow> logs_query \<Rightarrow> state \<Rightarrow>
     (http_error + (synclog \<times> string option) list \<times> pagination) \<times> state" where
  "GET_logs L q s =
     (let page = or_default (q_page q) 1;
          limit = or_default (q_limit q) 50;
          skip = (page - 1) * limit;
          f = list_filter q
      in case query_logs L f skip limit s of
           (Inl e, s1) \<Rightarrow> (Inl (Http 500 ''Server error''), s1)
         | (Inr docs, s1) \<Rightarrow>
             (case count_logs L f s1 of
                (Inl e, s2) \<Rightarrow> (Inl (Http 500 ''Server error''), s2)
              | (Inr n, s2) \<Rightarrow>
                  (Inr (docs,
                     \<lparr>pg_current = page,
                      pg_pages = \<lceil>real n / real_of_int limit\<rceil>,
                      pg_total = n,
                      pg_hasNext = (page < \<lceil>real n / real_of_int limit\<rceil>),
                      pg_hasPrev = (page > 1)\<rparr>), s2)))"

text \<open>The entries a request for one page is answered with (none when it fails).\<close>

definition page_docs :: "jslib \<Rightarrow> logs_query \<Rightarrow> state \<Rightarrow> (synclog \<times> string option) list" where
  "page_docs L q s = (case fst (GET_logs L q s) of Inl e \<Rightarrow> [] | Inr (docs, pg) \<Rightarrow> docs)"

subsection \<open>CSV rendering\<close>

text \<open>\<open>Date.prototype.toISOString\<close> of a valid date, by the civil calendar in UTC.\<close>

definition pad :: "nat \<Rightarrow> nat \<Rightarrow> string" where
  "pad w n = replicate (w - length (show_nat n)) CHR ''0'' @ show_nat n"

definition civil_from_days :: "int \<Rightarrow> int \<times> int \<times> int" where
  "civil_from_days z0 =
     (let z = z0 + 719468;
          era = z div 146097;
          doe = z mod 146097;
          yoe = (doe - doe div 1460 + doe div 36524 - doe div 146096) div 365;
          doy = doe - (365 * yoe + yoe div 4 - yoe div 100);
          mp = (5 * doy + 2) div 153;
          d = doy - (153 * mp + 2) div 5 + 1;
          m = (if mp < 10 then mp + 3 else mp - 9);
          y = yoe + era * 400 + (if m \<le> 2 then 1 else 0)
      in (y, m, d))"

definition toISOString :: "date \<Rightarrow> string" where
  "toISOString t =
     (let (y, m, d) = civil_from_days (t div day_ms);
          ms = t mod day_ms;
          year = (if 0 \<le> y \<and> y \<le> 9999 then pad 4 (nat y)
                  else (if y < 0 then ''-'' else ''+'') @ pad 6 (nat \<bar>y\<bar>))
      in year @ ''-'' @ pad 2 (nat m) @ ''-'' @ pad 2 (nat d) @ ''T'' @
         pad 2 (nat (ms div 3600000)) @ '':'' @ pad 2 (nat (ms div 60000 mod 60)) @ '':'' @
         pad 2 (nat (ms div 1000 mod 60)) @ ''.'' @ pad 3 (nat (ms mod 1000)) @ ''Z'')"

text \<open>\<open>s.split(c)\<close> for a separator of one character.\<close>

fun split_on :: "char \<Rightarrow> string \<Rightarrow> string list" where
  "split_on c [] = [[]]"
| "split_on c (x # xs) =
     (if x = c then [] # split_on c xs
      else (case split_on c xs of [] \<Rightarrow> [[x]] | y # ys \<Rightarrow> (x # y) # ys))"

text \<open>\<open>s.replace(/c/g, r)\<close> for a pattern of one character.\<close>

definition replace_char :: "char \<Rightarrow> string \<Rightarrow> string \<Rightarrow> string" where
  "replace_char c r s = concat (map (\<lambda>x. if x = c then r else [x]) s)"

definition dquote :: char where
  "dquote = CHR 0x22"

definition newline :: char where
  "newline = CHR 0x0A"

definition csvHeader :: string where
  "csvHeader = ''Date,Time,Level,Operation,Entity Type,Message,User,Source,IP Address'' @ [newline]"

text \<open>\<open>log.userId ? log.userId.username : log.username || 'System'\<close>, after populate.\<close>

definition user_column :: "synclog \<times> string option \<Rightarrow> string" where
  "user_column d =
     (case snd d of
        Some n \<Rightarrow> n
      | None \<Rightarrow> (if truthy (l_username (fst d)) then with_default (l_username (fst d)) []
                 else ''System''))"

text \<open>The array the row is joined from, given the two parts of the ISO timestamp.\<close>

definition csv_fields :: "string \<Rightarrow> string \<Rightarrow> synclog \<times> string option \<Rightarrow> string list" where
  "csv_fields date time d =
     [date, time, l_level (fst d), l_operation (fst d), l_entityType (fst d),
      [dquote] @ replace_char dquote [dquote, dquote] (l_message (fst d)) @ [dquote],
      user_column d, l_source (fst d), with_default (l_ipAddress (fst d)) []]"

text \<open>
  \<open>iso.split('T')[0]\<close> and \<open>iso.split('T')[1].split('.')[0]\<close>; the second throws a
  TypeError when the string has no \<open>T\<close>.
\<close>

definition iso_date_time :: "string \<Rightarrow> err + string \<times> string" where
  "iso_date_time stamp =
     (case split_on CHR ''T'' stamp of
        date # t # rest \<Rightarrow>
          Inr (date, case split_on CHR ''.'' t of [] \<Rightarrow> [] | x # xs \<Rightarrow> x)
      | _ \<Rightarrow> Inl (TypeError ''Cannot read properties of undefined''))"

definition csv_row :: "synclog \<times> string option \<Rightarrow> err + string" where
  "csv_row d =
     (case iso_date_time (toISOString (l_createdAt (fst d))) of
        Inl e \<Rightarrow> Inl e
      | Inr (date, time) \<Rightarrow> Inr (join '','' (csv_fields date time d)))"

fun csv_rows :: "(synclog \<times> string option) list \<Rightarrow> err + string list" where
  "csv_rows [] = Inr []"
| "csv_rows (d # ds) =
     (case csv_row d of
        Inl e \<Rightarrow> Inl e
      | Inr r \<Rightarrow> (case csv_rows ds of Inl e \<Rightarrow> Inl e | Inr rs \<Rightarrow> Inr (r # rs)))"

definition GET_export_csv ::
  "jslib \<Rightarrow> logs_query \<Rightarrow> state \<Rightarrow> (http_error + string) \<times> state" where
  "GET_export_csv L q s =
     (case query_logs L (export_filter q) 0 5000 s of
        (Inl e, s1) \<Rightarrow> (Inl (Http 500 ''Server error''), s1)
      | (Inr docs, s1) \<Rightarrow>
          (case csv_rows docs of
             Inl e \<Rightarrow> (Inl (Http 500 ''Server error''), s1)
           | Inr rows \<Rightarrow> (Inr (csvHeader @ join [newline] rows), s1)))"

text \<open>
  The reading of a quoted CSV field, to state that the escaping is the standard one:
  the field is enclosed in quotes, and inside a doubled quote stands for one quote.
\<close>

fun csv_unescape :: "string \<Rightarrow> string option" where
  "csv_unescape [] = None"
| "csv_unescape [c] = (if c = dquote then Some [] else None)"
| "csv_unescape (c # c' # cs) =
     (if c = dquote then
        (if c' = dquote then map_option ((#) dquote) (csv_unescape cs) else None)
      else map_option ((#) c) (csv_unescape (c' # cs)))"

definition csv_unquote :: "string \<Rightarrow> string option" where
  "csv_unquote s = (case s of [] \<Rightarrow> None | c # cs \<Rightarrow> if c = dquote then csv_unescape cs else None)"

text \<open>All the entries a filter selects, as a query with no window returns them.\<close>

definition matching :: "jslib \<Rightarrow> log_filter \<Rightarrow> state \<Rightarrow> (synclog \<times> string option) list" where
  "matching L f s = map (populate (users s)) (newest_first (filter (matches L f) (logs s)))"

section \<open>Example data\<close>

definition admin0 :: user where
  "admin0 = \<lparr>u_id = 1, u_username = ''root'', u_role = ''admin''\<rparr>"

definition viewer0 :: user where
  "viewer0 = \<lparr>u_id = 2, u_username = ''ann'', u_role = ''user''\<rparr>"

definition rq0 :: req_meta where
  "rq0 = \<lparr>rq_ip = Some ''10.0.0.1'', rq_userAgent = None\<rparr>"

definition entry_at :: "date \<Rightarrow> string \<Rightarrow> synclog" where
  "entry_at t m =
     \<lparr>l_operation = ''info'', l_entityType = ''system'', l_entityId = None,
      l_message = m, l_details = None, l_userId = None, l_username = None,
      l_level = ''info'', l_source = ''system'', l_ipAddress = None,
      l_userAgent = None, l_duration = None, l_status = ''success'', l_createdAt = t\<rparr>"

definition store0 :: "synclog list \<Rightarrow> date \<Rightarrow> state" where
  "store0 ls now =
     \<lparr>products = [], logs = ls, users = [], clock = now, next_id = 100,
      product_env = [], log_env = []\<rparr>"

text \<open>
  Two zones: UTC, and a zone one hour east of UTC that is two hours east from day 90 of
  1970 on (a daylight-saving switch at local midnight).
\<close>

definition utc :: zone where
  "utc = \<lparr>tza_utc = (\<lambda>t. 0), tza_local = (\<lambda>t. 0)\<rparr>"

definition summer_zone :: zone where
  "summer_zone =
     \<lparr>tza_utc = (\<lambda>t. if t < 90 * day_ms - 3600000 then 3600000 else 7200000),
      tza_local = (\<lambda>t. if t < 90 * day_ms then 3600000 else 7200000)\<rparr>"

definition purge_store :: state where
  "purge_store = store0 [entry_at (55 * day_ms) ''old'', entry_at (98 * day_ms) ''new''] (100 * day_ms)"

definition recent_store :: state where
  "recent_store = store0 [entry_at (99 * day_ms) ''yesterday''] (100 * day_ms)"

definition widget :: item where
  "widget = \<lparr>i_sku = Some ''A1'', i_name = Some ''Widget'', i_description = None,
     i_price = Some 9.99, i_category = Some ''X'', i_stock = Some 5, i_status = None,
     i_vendor = None, i_tags = None\<rparr>"

definition nosku :: item where
  "nosku = \<lparr>i_sku = None, i_name = Some ''NoSku'', i_description = None,
     i_price = None, i_category = None, i_stock = None, i_status = None,
     i_vendor = None, i_tags = None\<rparr>"

definition audit_down :: state where
  "audit_down = (store0 [] 1000)
     \<lparr>log_env := [\<lparr>ev_fault = None, ev_elapsed = 3\<rparr>,
                  \<lparr>ev_fault = Some ''not primary'', ev_elapsed = 4\<rparr>]\<rparr>"


text \<open>An example runtime: a pattern is literal text, matched without regard to case; one
  date string and two object ids are known.\<close>

definition lower_char :: "char \<Rightarrow> char" where
  "lower_char c = (if 65 \<le> (of_char c :: nat) \<and> (of_char c :: nat) \<le> 90
                   then char_of ((of_char c :: nat) + 32) else c)"

fun starts_with :: "string \<Rightarrow> string \<Rightarrow> bool" where
  "starts_with [] s = True"
| "starts_with (p # ps) [] = False"
| "starts_with (p # ps) (c # cs) = (p = c \<and> starts_with ps cs)"

fun contains :: "string \<Rightarrow> string \<Rightarrow> bool" where
  "contains p [] = (p = [])"
| "contains p (c # cs) = (starts_with p (c # cs) \<or> contains p cs)"

definition lib0 :: jslib where
  "lib0 = \<lparr>regex_valid = (\<lambda>p. True),
           regex_test = (\<lambda>p m. contains (map lower_char p) (map lower_char m)),
           new_Date = (\<lambda>d. if d = ''1970-01-01'' then Some 0 else None),
           cast_ObjectId = (\<lambda>v. if v = ''000000000000000000000001'' then Some 1
                                 else if v = ''000000000000000000000002'' then Some 2 else None)\<rparr>"

definition no_query :: logs_query where
  "no_query = \<lparr>q_page = None, q_limit = None, q_operation = None, q_entityType = None,
     q_level = None, q_source = None, q_userId = None, q_startDate = None,
     q_endDate = None, q_search = None\<rparr>"

definition log_of :: "date \<Rightarrow> string \<Rightarrow> string \<Rightarrow> object_id option \<Rightarrow> synclog" where
  "log_of t lvl m uid =
     \<lparr>l_operation = ''sync'', l_entityType = ''product'', l_entityId = None,
      l_message = m, l_details = None, l_userId = uid, l_username = None,
      l_level = lvl, l_source = ''api'', l_ipAddress = None,
      l_userAgent = None, l_duration = None, l_status = ''success'', l_createdAt = t\<rparr>"

definition two_logs :: state where
  "two_logs =
     \<lparr>products = [],
      logs = [log_of 1000 ''info'' ''Bulk sync started for 1 products'' (Some 1),
              log_of 2000 ''success'' ''Nightly import done'' (Some 2)],
      users = [(1, ''root''), (2, ''ann'')], clock = 5000, next_id = 100,
      product_env = [], log_env = []\<rparr>"

definition five_logs :: state where
  "five_logs =
     \<lparr>products = [],
      logs = [log_of 1000 ''error'' ''e1'' None, log_of 2000 ''info'' ''i1'' None,
              log_of 3000 ''error'' ''e2'' None, log_of 4000 ''success'' ''s1'' None,
              log_of 5000 ''error'' ''e3'' None],
      users = [], clock = 9000, next_id = 100, product_env = [], log_env = []\<rparr>"

definition error_page :: logs_query where
  "error_page = no_query\<lparr>q_level := Some ''error'', q_limit := Some 2\<rparr>"

definition quote_store :: state where
  "quote_store =
     \<lparr>products = [],
      logs = [log_of 1000 ''info'' (''He said '' @ [dquote] @ ''hi'' @ [dquote]) None],
      users = [], clock = 9000, next_id = 100, product_env = [], log_env = []\<rparr>"

section \<open>Properties of the retention purge\<close>

lemma createLog_valid:
  assumes "log_errors d = []" and "accepts 1 (log_env s)"
  shows "createLog d s =
     (Inr (new_SyncLog d (clock s)),
      s\<lparr>log_env := snd (next_event (log_env s)),
        clock := clock s + int (ev_elapsed (fst (next_event (log_env s)))),
        logs := logs s @ [new_SyncLog d (clock s)]\<rparr>)"
  using assms
  by (cases "log_env s") (auto simp: createLog_def next_event_def accepts_def Let_def)

lemma cleanup_log_valid: "log_errors (cleanup_log u rq n D) = []"
  by (simp add: log_errors_def cleanup_log_def operation_enum_def entityType_enum_def
      level_enum_def source_enum_def with_default_def)

text \<open>
  C9. An actor whose role is not admin gets the authorization error of the retention
  purge (status 403), and the state, so every log entry, is what it was: nothing is
  deleted and no audit entry is written.
\<close>

theorem cleanup_requires_admin:
  "u_role u \<noteq> ''admin'' \<Longrightarrow>
     DELETE_cleanup Z u rq days s = (Inl (Http 403 ''Admin access required''), s)"
  by (simp add: DELETE_cleanup_def)

theorem cleanup_requires_admin_witness:
  "u_role viewer0 \<noteq> ''admin'' \<and>
   DELETE_cleanup utc viewer0 rq0 (Some 7) purge_store =
     (Inl (Http 403 ''Admin access required''), purge_store)"
proof -
  have h: "u_role viewer0 \<noteq> ''admin''" by (simp add: viewer0_def)
  from cleanup_requires_admin [OF h] h show ?thesis by blast
qed


text \<open>
  C5, amended. For an admin, a threshold \<open>D\<close> other than 0 whose cutoff, now minus \<open>D\<close>
  calendar days of the server's local time, is a date \<open>c\<close> of the JavaScript range, and
  a store that accepts the two calls: the purge deletes exactly the entries created
  strictly before \<open>c\<close>, answers with their number, and then appends one entry of level
  info, operation delete and entity type system whose details hold that number and
  \<open>D\<close>; no entry before the new one is older than the cutoff; a purge with no threshold
  is the purge with 30 days; and \<open>c\<close> is now minus \<open>D\<close> times 24 hours when the local
  offset at the cutoff is the offset now.
\<close>

theorem purge_older_than:
  assumes "u_role u = ''admin''" and "accepts 2 (log_env s)" and "D \<noteq> 0"
    and "cutoff_date Z (clock s) D = Some c"
  shows "\<exists>entry s'.
     DELETE_cleanup Z u rq (Some D) s =
       (Inr (length (filter (\<lambda>e. l_createdAt e < c) (logs s))), s') \<and>
     logs s' = filter (\<lambda>e. \<not> l_createdAt e < c) (logs s) @ [entry] \<and>
     l_level entry = ''info'' \<and> l_operation entry = ''delete'' \<and>
     l_entityType entry = ''system'' \<and>
     l_details entry = Some (CleanupDetails
       (length (filter (\<lambda>e. l_createdAt e < c) (logs s))) D) \<and>
     clock s \<le> l_createdAt entry \<and>
     list_all (\<lambda>e. \<not> l_createdAt e < c) (butlast (logs s')) \<and>
     DELETE_cleanup Z u rq None s = DELETE_cleanup Z u rq (Some 30) s \<and>
     (tza_local Z (clock s + tza_utc Z (clock s) - D * day_ms) = tza_utc Z (clock s)
        \<longrightarrow> c = clock s - D * day_ms)"
proof -
  obtain ev rest where ne: "next_event (log_env s) = (ev, rest)"
    by (cases "next_event (log_env s)")
  have f0: "ev_fault ev = None" and a1: "accepts 1 rest"
    using assms(2) ne
    by (cases "log_env s"; auto simp: next_event_def accepts_def numeral_2_eq_2)+
  let ?n = "length (filter (\<lambda>e. l_createdAt e < c) (logs s))"
  let ?s1 = "s\<lparr>log_env := rest, clock := clock s + int (ev_elapsed ev),
               logs := filter (\<lambda>e. \<not> l_createdAt e < c) (logs s)\<rparr>"
  have del: "deleteMany_before c s = (Inr ?n, ?s1)"
    using ne f0 by (simp add: deleteMany_before_def)
  have a1': "accepts 1 (log_env ?s1)" using a1 by simp
  note cl = createLog_valid [OF cleanup_log_valid a1', of u rq ?n D]
  have z: "tza_local Z (clock s + tza_utc Z (clock s) - D * day_ms) = tza_utc Z (clock s)
        \<longrightarrow> c = clock s - D * day_ms"
    using assms(4) by (auto simp: cutoff_date_def TimeClip_def Let_def split: if_splits)
  have "\<exists>entry s'.
     DELETE_cleanup Z u rq (Some D) s = (Inr ?n, s') \<and>
     logs s' = filter (\<lambda>e. \<not> l_createdAt e < c) (logs s) @ [entry] \<and>
     l_level entry = ''info'' \<and> l_operation entry = ''delete'' \<and>
     l_entityType entry = ''system'' \<and>
     l_details entry = Some (CleanupDetails ?n D) \<and>
     clock s \<le> l_createdAt entry \<and>
     list_all (\<lambda>e. \<not> l_createdAt e < c) (butlast (logs s'))"
    using assms(1,3,4) del cl
    by (simp add: DELETE_cleanup_def or_default_def new_SyncLog_def
        cleanup_log_def with_default_def list_all_iff)
  moreover have "DELETE_cleanup Z u rq None s = DELETE_cleanup Z u rq (Some 30) s"
    by (simp add: DELETE_cleanup_def or_default_def)
  ultimately show ?thesis using z by blast
qed

theorem purge_older_than_witness:
  "u_role admin0 = ''admin'' \<and> accepts 2 (log_env purge_store) \<and> (30::int) \<noteq> 0 \<and>
   cutoff_date utc (clock purge_store) 30 = Some (70 * day_ms) \<and>
   fst (DELETE_cleanup utc admin0 rq0 (Some 30) purge_store) = Inr 1 \<and>
   butlast (logs (snd (DELETE_cleanup utc admin0 rq0 (Some 30) purge_store))) =
     [entry_at (98 * day_ms) ''new'']"
proof -
  have h1: "u_role admin0 = ''admin''" by (simp add: admin0_def)
  have h2: "accepts 2 (log_env purge_store)"
    by (simp add: purge_store_def store0_def accepts_def)
  have h3: "(30::int) \<noteq> 0" by simp
  have h4: "cutoff_date utc (clock purge_store) 30 = Some (70 * day_ms)"
    by (simp add: cutoff_date_def TimeClip_def utc_def purge_store_def store0_def day_ms_def
        max_time_def)
  from purge_older_than [OF h1 h2 h3 h4, of rq0] obtain entry s' where
    r: "DELETE_cleanup utc admin0 rq0 (Some 30) purge_store =
       (Inr (length (filter (\<lambda>e. l_createdAt e < 70 * day_ms) (logs purge_store))), s')"
    and k: "logs s' = filter (\<lambda>e. \<not> l_createdAt e < 70 * day_ms) (logs purge_store) @ [entry]"
    by blast
  have "fst (DELETE_cleanup utc admin0 rq0 (Some 30) purge_store) = Inr 1"
    using r by (simp add: purge_store_def store0_def entry_at_def day_ms_def)
  moreover have "butlast (logs (snd (DELETE_cleanup utc admin0 rq0 (Some 30) purge_store))) =
     [entry_at (98 * day_ms) ''new'']"
    using r k by (simp add: purge_store_def store0_def entry_at_def day_ms_def)
  ultimately show ?thesis using h1 h2 h3 h4 by blast
qed

text \<open>
  C5 as stated fails at the threshold 0: an entry created a day ago is older than now
  minus 0 days, and the purge asked for with \<open>days = 0\<close> deletes nothing and keeps it.
\<close>

theorem purge_zero_days_counterexample:
  "fst (DELETE_cleanup utc admin0 rq0 (Some 0) recent_store) = Inr 0 \<and>
   l_createdAt (entry_at (99 * day_ms) ''yesterday'') < clock recent_store - 0 * day_ms \<and>
   entry_at (99 * day_ms) ''yesterday'' \<in>
     set (logs (snd (DELETE_cleanup utc admin0 rq0 (Some 0) recent_store)))"
  by (simp add: DELETE_cleanup_def admin0_def recent_store_def store0_def or_default_def
      cutoff_date_def TimeClip_def max_time_def utc_def deleteMany_before_def next_event_def
      createLog_def cleanup_log_valid entry_at_def day_ms_def Let_def)

text \<open>
  Two more runs. A threshold of 200000000 days puts the cutoff before the first date
  there is: the purge answers 500 and the state is untouched. Across a daylight-saving
  switch a day of the calendar is not 24 hours: at noon of day 100 in the zone that
  switched on day 90, the cutoff of 30 days is one hour later than 30 times 24 hours
  before now.
\<close>

lemma purge_invalid_cutoff:
  "DELETE_cleanup utc admin0 rq0 (Some 200000000) purge_store =
     (Inl (Http 500 ''Server error''), purge_store)"
  by (simp add: DELETE_cleanup_def admin0_def or_default_def cutoff_date_def TimeClip_def
      max_time_def utc_def purge_store_def store0_def day_ms_def)

lemma purge_across_switch:
  "cutoff_date summer_zone (100 * day_ms) 30 = Some (100 * day_ms - 30 * day_ms + 3600000)"
  by (simp add: cutoff_date_def TimeClip_def max_time_def summer_zone_def day_ms_def)

section \<open>Properties of the bulk sync\<close>

subsection \<open>What each store call leaves unchanged\<close>

lemma accepts_all_rest: "accepts_all evs \<Longrightarrow> accepts_all (snd (next_event evs))"
  by (cases evs) (simp_all add: accepts_all_def next_event_def)

lemma accepts_all_head: "accepts_all evs \<Longrightarrow> ev_fault (fst (next_event evs)) = None"
  by (cases evs) (simp_all add: accepts_all_def next_event_def)

lemma findOne_frame:
  "findOne_sku k s = (x, s1) \<Longrightarrow>
     products s1 = products s \<and> logs s1 = logs s \<and> log_env s1 = log_env s \<and>
     next_id s1 = next_id s \<and> clock s \<le> clock s1"
  by (auto simp: findOne_sku_def Let_def split: prod.splits option.splits)


lemma save_frame:
  "save_product errs p s = (x, s1) \<Longrightarrow>
     logs s1 = logs s \<and> log_env s1 = log_env s \<and> next_id s1 = next_id s \<and>
     clock s \<le> clock s1"
  by (auto simp: save_product_def Let_def split: prod.splits option.splits if_splits)


lemma createLog_frame:
  "createLog d s = (x, s1) \<Longrightarrow>
     products s1 = products s \<and> next_id s1 = next_id s \<and> clock s \<le> clock s1 \<and>
     product_env s1 = product_env s"
  by (auto simp: createLog_def Let_def split: prod.splits option.splits if_splits)

lemma createLog_env:
  "createLog d s = (x, s1) \<Longrightarrow> accepts_all (log_env s) \<Longrightarrow> accepts_all (log_env s1)"
  by (auto simp: createLog_def Let_def accepts_all_rest split: prod.splits option.splits if_splits
      dest: accepts_all_rest)

lemma createLog_Inr:
  "createLog d s = (Inr entry, s1) \<Longrightarrow>
     entry = new_SyncLog d (clock s) \<and> logs s1 = logs s @ [entry] \<and> log_errors d = []"
  by (auto simp: createLog_def Let_def split: prod.splits option.splits if_splits)

lemma createLog_Inl:
  "createLog d s = (Inl e, s1) \<Longrightarrow> logs s1 = logs s"
  by (auto simp: createLog_def Let_def split: prod.splits option.splits if_splits)

lemma createLog_accepted:
  assumes "log_errors d = []" and "accepts_all (log_env s)"
  shows "\<exists>s1. createLog d s = (Inr (new_SyncLog d (clock s)), s1)"
  using assms accepts_all_head [of "log_env s"]
  by (auto simp: createLog_def Let_def split: prod.splits option.splits)

subsection \<open>An item with no SKU\<close>





subsection \<open>Counting\<close>

lemma log_errors_start:
  "log_errors (start_log u rq src n) = (if src \<in> set source_enum then [] else [''source''])"
  by (simp add: log_errors_def start_log_def operation_enum_def entityType_enum_def
      level_enum_def with_default_def)

lemma log_errors_update:
  "log_errors (item_log u src ''update'' i it) =
     (if src \<in> set source_enum then [] else [''source''])"
  by (simp add: log_errors_def item_log_def operation_enum_def entityType_enum_def
      level_enum_def with_default_def)

lemma log_errors_create:
  "log_errors (item_log u src ''create'' i it) =
     (if src \<in> set source_enum then [] else [''source''])"
  by (simp add: log_errors_def item_log_def operation_enum_def entityType_enum_def
      level_enum_def with_default_def)

lemma log_errors_error:
  "log_errors (error_log u src x e) = (if src \<in> set source_enum then [] else [''source''])"
  by (simp add: log_errors_def error_log_def operation_enum_def entityType_enum_def
      level_enum_def with_default_def)

lemma log_errors_summary:
  "log_errors (summary_log u rq src r d) =
     (if src \<in> set source_enum then [] else [''source''])"
  by (simp add: log_errors_def summary_log_def operation_enum_def entityType_enum_def
      level_enum_def with_default_def)

lemma createLog_Inl_invalid:
  "accepts_all (log_env s) \<Longrightarrow> createLog d s = (Inl e, s1) \<Longrightarrow> log_errors d \<noteq> []"
  using createLog_accepted [of d s] by auto

lemma item_log_operation:
  "l_operation (new_SyncLog (item_log u src operation i it) now) = operation \<and>
   l_level (new_SyncLog (item_log u src operation i it) now) = ''success''"
  by (simp add: new_SyncLog_def item_log_def with_default_def)

lemma sync_object_shape:
  assumes "accepts_all (log_env s)" and "sync_object u src it s r = (eo, s1, r1)"
  shows "accepts_all (log_env s1) \<and> r_total r1 = r_total r \<and> r_errors r1 = r_errors r \<and>
     clock s \<le> clock s1 \<and>
     (case eo of
        None \<Rightarrow> counted r1 = counted r + 1 \<and>
          (\<exists>entry. logs s1 = logs s @ [entry] \<and> l_operation entry \<noteq> ''sync'')
      | Some e \<Rightarrow> logs s1 = logs s \<and> (r1 = r \<or> src \<notin> set source_enum))"
proof -
  obtain x sa where f: "findOne_sku (i_sku it) s = (x, sa)"
    by (cases "findOne_sku (i_sku it) s")
  note fr = findOne_frame [OF f]
  from fr assms(1) have a: "accepts_all (log_env sa)" by simp
  show ?thesis
  proof (cases x)
    case (Inl e)
    then show ?thesis using assms(2) f a fr by (auto simp: sync_object_def)
  next
    case (Inr found)
    show ?thesis
    proof (cases found)
      case None
      let ?p = "new_Product (next_id sa) it (clock sa) src"
      let ?sa = "sa\<lparr>next_id := next_id sa + 1\<rparr>"
      obtain y sb where sv: "save_product (new_product_errors it ?p) ?p ?sa = (y, sb)"
        by (cases "save_product (new_product_errors it ?p) ?p ?sa")
      note sf = save_frame [OF sv]
      from sf a have b: "accepts_all (log_env sb)" by simp
      show ?thesis
      proof (cases y)
        case (Inl e)
        then show ?thesis
          using assms(2) f Inr None sv b fr sf by (auto simp: sync_object_def Let_def)
      next
        case saved: (Inr u1)
        obtain z sc where cl: "createLog (item_log u src ''create'' (p_id ?p) it) sb = (z, sc)"
          by (cases "createLog (item_log u src ''create'' (p_id ?p) it) sb")
        note c = createLog_env [OF cl b]
        note cf = createLog_frame [OF cl]
        show ?thesis
        proof (cases z)
          case (Inl e)
          from cl Inl have ce: "createLog (item_log u src ''create'' (p_id ?p) it) sb = (Inl e, sc)"
            by simp
          from createLog_Inl_invalid [OF b ce] have "src \<notin> set source_enum"
            by (simp add: log_errors_create split: if_splits)
          then show ?thesis
            using assms(2) f Inr None sv saved cl Inl c cf fr sf createLog_Inl [OF ce]
            by (auto simp: sync_object_def Let_def)
        next
          case (Inr entry)
          from cl Inr have ce: "createLog (item_log u src ''create'' (p_id ?p) it) sb = (Inr entry, sc)"
            by simp
          from createLog_Inr [OF ce] have "logs sc = logs sb @ [entry]"
            and "l_operation entry \<noteq> ''sync''"
            by (simp_all add: item_log_operation)
          then show ?thesis
            using assms(2) f \<open>x = Inr found\<close> None sv saved cl Inr c cf fr sf
            by (auto simp: sync_object_def Let_def counted_def)
        qed
      qed
    next
      case (Some ex)
      let ?p = "(assign ex it)\<lparr>p_lastSyncedAt := clock sa, p_syncSource := src,
                   p_syncStatus := ''synced''\<rparr>"
      obtain y sb where sv: "save_product (product_errors ?p) ?p sa = (y, sb)"
        by (cases "save_product (product_errors ?p) ?p sa")
      note sf = save_frame [OF sv]
      from sf a have b: "accepts_all (log_env sb)" by simp
      show ?thesis
      proof (cases y)
        case (Inl e)
        then show ?thesis
          using assms(2) f Inr Some sv b fr sf by (auto simp: sync_object_def Let_def)
      next
        case saved: (Inr u1)
        obtain z sc where cl: "createLog (item_log u src ''update'' (p_id ?p) it) sb = (z, sc)"
          by (cases "createLog (item_log u src ''update'' (p_id ?p) it) sb")
        note c = createLog_env [OF cl b]
        note cf = createLog_frame [OF cl]
        show ?thesis
        proof (cases z)
          case (Inl e)
          from cl Inl have ce: "createLog (item_log u src ''update'' (p_id ?p) it) sb = (Inl e, sc)"
            by simp
          from createLog_Inl_invalid [OF b ce] have "src \<notin> set source_enum"
            by (simp add: log_errors_update split: if_splits)
          then show ?thesis
            using assms(2) f Inr Some sv saved cl Inl c cf fr sf createLog_Inl [OF ce]
            by (auto simp: sync_object_def Let_def)
        next
          case (Inr entry)
          from cl Inr have ce: "createLog (item_log u src ''update'' (p_id ?p) it) sb = (Inr entry, sc)"
            by simp
          from createLog_Inr [OF ce] have "logs sc = logs sb @ [entry]"
            and "l_operation entry \<noteq> ''sync''"
            by (simp_all add: item_log_operation)
          then show ?thesis
            using assms(2) f \<open>x = Inr found\<close> Some sv saved cl Inr c cf fr sf
            by (auto simp: sync_object_def Let_def counted_def)
        qed
      qed
    qed
  qed
qed

lemma sync_item_counts:
  assumes "accepts_all (log_env s)" and "sync_item u src x s r = (None, s', r')"
  shows "accepts_all (log_env s') \<and> r_total r' = r_total r \<and> counted r' = counted r + 1"
proof (cases "fields_of x")
  case None
  then show ?thesis
    using assms(2) by (auto simp: sync_item_def sync_try_def Let_def)
next
  case (Some it)
  obtain eo s1 r1 where t: "sync_object u src it s r = (eo, s1, r1)"
    by (cases "sync_object u src it s r")
  note sh = sync_object_shape [OF assms(1) t]
  show ?thesis
  proof (cases eo)
    case None
    then show ?thesis using assms(2) t sh Some by (simp add: sync_item_def sync_try_def)
  next
    case failed: (Some e)
    obtain z s2 where cl: "createLog (error_log u src x e) s1 = (z, s2)"
      by (cases "createLog (error_log u src x e) s1")
    from sh have a1: "accepts_all (log_env s1)" by simp
    from assms(2) t failed cl Some obtain entry where z: "z = Inr entry"
      and r': "r' = r1\<lparr>r_errors := r_errors r1 + 1\<rparr>" and s': "s' = s2"
      by (cases z) (auto simp: sync_item_def sync_try_def Let_def)
    from createLog_Inr cl z have "log_errors (error_log u src x e) = []" by blast
    then have "src \<in> set source_enum" by (simp add: log_errors_error split: if_splits)
    with sh failed have "r1 = r" by simp
    then show ?thesis
      using r' s' createLog_env [OF cl a1] by (simp add: counted_def)
  qed
qed

lemma sync_loop_counts:
  "accepts_all (log_env s) \<Longrightarrow> sync_loop u src its s r = (None, s', r') \<Longrightarrow>
     accepts_all (log_env s') \<and> r_total r' = r_total r \<and>
     counted r' = counted r + length its"
proof (induction its arbitrary: s r)
  case Nil
  then show ?case by simp
next
  case (Cons it its)
  obtain eo s1 r1 where i: "sync_item u src it s r = (eo, s1, r1)"
    by (cases "sync_item u src it s r")
  with Cons.prems(2) have eo: "eo = None" and l: "sync_loop u src its s1 r1 = (None, s', r')"
    by (cases eo; simp)+
  from sync_item_counts [OF Cons.prems(1) i [unfolded eo]] Cons.IH [OF _ l]
  show ?case by simp
qed

text \<open>
  When the audit store accepts every write, the summary returned accounts for each item
  of the batch once: the three counters add up to \<open>total\<close>, the length of the batch.
\<close>

lemma sync_counts_when_audit_accepts:
  assumes "accepts_all (log_env s)" and "fst (POST_sync u rq body s) = Inr (r, d)"
  shows "\<exists>ps. b_products body = Some ps \<and> counted r = r_total r \<and> r_total r = length ps"
proof -
  from assms(2) obtain ps where ps: "b_products body = Some ps"
    by (cases "b_products body") (auto simp: POST_sync_def)
  let ?src = "with_default (b_source body) ''api''"
  let ?r0 = "\<lparr>r_created = 0, r_updated = 0, r_errors = 0, r_total = length ps\<rparr>"
  obtain x s1 where c1: "createLog (start_log u rq ?src (length ps)) s = (x, s1)"
    by (cases "createLog (start_log u rq ?src (length ps)) s")
  note a1 = createLog_env [OF c1 assms(1)]
  obtain eo s2 r2 where l: "sync_loop u ?src ps s1 ?r0 = (eo, s2, r2)"
    by (cases "sync_loop u ?src ps s1 ?r0")
  from assms(2) ps c1 l have eo: "eo = None" and rr: "r2 = r"
    by (cases x; cases eo; auto simp: POST_sync_def Let_def split: prod.splits sum.splits)+
  from sync_loop_counts [OF a1 l [unfolded eo]] rr ps show ?thesis
    by (simp add: counted_def)
qed

text \<open>
  C1 fails on the code. A batch of one new, valid item, with an audit store that accepts
  the start entry and rejects the item's \<open>create\<close> entry: the product is saved and
  \<open>created\<close> is bumped, then the rejected audit write lands in the \<open>catch\<close>, which
  bumps \<open>errors\<close> too. The summary returned counts the one item twice.
\<close>

theorem sync_double_count:
  "fst (POST_sync admin0 rq0 \<lparr>b_products = Some [JObject widget], b_source = Some ''api''\<rparr> audit_down)
     = Inr (\<lparr>r_created = 1, r_updated = 0, r_errors = 1, r_total = 1\<rparr>, 7)"
  by code_simp

subsection \<open>The audit trail of a batch\<close>

lemma sync_item_ok:
  assumes "src \<in> set source_enum" and "accepts_all (log_env s)" and "x \<noteq> JNull"
  shows "\<exists>s' r' entry. sync_item u src x s r = (None, s', r') \<and>
     logs s' = logs s @ [entry] \<and> l_operation entry \<noteq> ''sync'' \<and>
     accepts_all (log_env s') \<and> clock s \<le> clock s'"
proof -
  from assms(3) obtain it where fo: "fields_of x = Some it"
    by (cases x) (simp_all add: fields_of_def)
  obtain eo s1 r1 where t: "sync_object u src it s r = (eo, s1, r1)"
    by (cases "sync_object u src it s r")
  note sh = sync_object_shape [OF assms(2) t]
  show ?thesis
  proof (cases eo)
    case None
    then show ?thesis using t sh fo by (auto simp: sync_item_def sync_try_def)
  next
    case (Some e)
    from sh have a1: "accepts_all (log_env s1)" by simp
    from createLog_accepted [OF _ a1, of "error_log u src x e"] assms(1)
    obtain s2 where cl: "createLog (error_log u src x e) s1 =
        (Inr (new_SyncLog (error_log u src x e) (clock s1)), s2)"
      by (auto simp: log_errors_error)
    from createLog_Inr [OF cl] createLog_env [OF cl a1] createLog_frame [OF cl]
    show ?thesis
      using t Some sh cl fo
      by (auto simp: sync_item_def sync_try_def Let_def new_SyncLog_def error_log_def)
  qed
qed

lemma sync_loop_ok:
  "src \<in> set source_enum \<Longrightarrow> accepts_all (log_env s) \<Longrightarrow> JNull \<notin> set xs \<Longrightarrow>
   \<exists>s' r' es. sync_loop u src xs s r = (None, s', r') \<and> logs s' = logs s @ es \<and>
     length es = length xs \<and> list_all (\<lambda>e. l_operation e \<noteq> ''sync'') es \<and>
     accepts_all (log_env s') \<and> clock s \<le> clock s'"
proof (induction xs arbitrary: s r)
  case Nil
  then show ?case by simp
next
  case (Cons x xs)
  from Cons.prems(3) have nx: "x \<noteq> JNull" and nxs: "JNull \<notin> set xs" by auto
  from sync_item_ok [OF Cons.prems(1,2) nx, of u r] obtain s1 r1 entry where
    i: "sync_item u src x s r = (None, s1, r1)" and l1: "logs s1 = logs s @ [entry]"
    and o1: "l_operation entry \<noteq> ''sync''" and a1: "accepts_all (log_env s1)"
    and c1: "clock s \<le> clock s1" by blast
  from Cons.IH [OF Cons.prems(1) a1 nxs, of r1] obtain s' r' es where
    l: "sync_loop u src xs s1 r1 = (None, s', r')" and l2: "logs s' = logs s1 @ es"
    and n: "length es = length xs" and o2: "list_all (\<lambda>e. l_operation e \<noteq> ''sync'') es"
    and a2: "accepts_all (log_env s')" and c2: "clock s1 \<le> clock s'" by blast
  have "sync_loop u src (x # xs) s r = (None, s', r')" using i l by simp
  moreover have "logs s' = logs s @ (entry # es)" using l1 l2 by simp
  moreover have "length (entry # es) = length (x # xs)" using n by simp
  moreover have "list_all (\<lambda>e. l_operation e \<noteq> ''sync'') (entry # es)" using o1 o2 by simp
  moreover have "clock s \<le> clock s'" using c1 c2 by simp
  ultimately show ?case using a2 by blast
qed

lemma audit_entry_fields:
  "l_level (new_SyncLog (start_log u rq src n) t) = ''info'' \<and>
   l_message (new_SyncLog (start_log u rq src n) t) =
     ''Bulk sync started for '' @ show_nat n @ '' products'' \<and>
   l_level (new_SyncLog (summary_log u rq src r d) t') =
     (if r_errors r = 0 then ''success'' else ''warning'') \<and>
   l_details (new_SyncLog (summary_log u rq src r d) t') = Some (ResultDetails r) \<and>
   l_duration (new_SyncLog (summary_log u rq src r d) t') = Some d \<and>
   l_operation (new_SyncLog (start_log u rq src n) t) = ''sync'' \<and>
   l_operation (new_SyncLog (summary_log u rq src r d) t') = ''sync''"
  by (simp add: new_SyncLog_def start_log_def summary_log_def with_default_def)

text \<open>
  For a batch with no \<open>null\<close> element, a source the log schema admits and an audit
  store that accepts every write, the handler answers with the summary, and the log grows by the start entry, one entry per
  item (none of operation \<open>sync\<close>) and the summary entry, created \<open>d\<close> ms after the
  start entry, \<open>d\<close> being the duration returned.
\<close>

lemma sync_start_and_summary:
  assumes "b_products body = Some ps"
    and "with_default (b_source body) ''api'' \<in> set source_enum"
    and "accepts_all (log_env s)"
    and "JNull \<notin> set ps"
  shows "\<exists>r d s' es.
     POST_sync u rq body s = (Inr (r, d), s') \<and>
     logs s' = logs s @ [new_SyncLog (start_log u rq (with_default (b_source body) ''api'') (length ps)) (clock s)]
        @ es @ [new_SyncLog (summary_log u rq (with_default (b_source body) ''api'') r d) (clock s + d)] \<and>
     length es = length ps \<and> list_all (\<lambda>e. l_operation e \<noteq> ''sync'') es \<and> 0 \<le> d"
proof -
  let ?src = "with_default (b_source body) ''api''"
  let ?r0 = "\<lparr>r_created = 0, r_updated = 0, r_errors = 0, r_total = length ps\<rparr>"
  from createLog_accepted [OF _ assms(3), of "start_log u rq ?src (length ps)"] assms(2)
  obtain s1 where c1: "createLog (start_log u rq ?src (length ps)) s =
      (Inr (new_SyncLog (start_log u rq ?src (length ps)) (clock s)), s1)"
    by (auto simp: log_errors_start)
  note a1 = createLog_env [OF c1 assms(3)]
  note f1 = createLog_frame [OF c1]
  note l1 = createLog_Inr [OF c1]
  from sync_loop_ok [OF assms(2) a1 assms(4), of u ?r0] obtain s2 r es where
    l: "sync_loop u ?src ps s1 ?r0 = (None, s2, r)" and l2: "logs s2 = logs s1 @ es"
    and n: "length es = length ps" and o: "list_all (\<lambda>e. l_operation e \<noteq> ''sync'') es"
    and a2: "accepts_all (log_env s2)" and c2: "clock s1 \<le> clock s2" by blast
  let ?d = "clock s2 - clock s"
  from createLog_accepted [OF _ a2, of "summary_log u rq ?src r ?d"] assms(2)
  obtain s3 where c3: "createLog (summary_log u rq ?src r ?d) s2 =
      (Inr (new_SyncLog (summary_log u rq ?src r ?d) (clock s2)), s3)"
    by (auto simp: log_errors_summary)
  note l3 = createLog_Inr [OF c3]
  have "POST_sync u rq body s = (Inr (r, ?d), s3)"
    using assms(1) c1 l c3 by (simp add: POST_sync_def Let_def)
  moreover have "logs s3 = logs s @ [new_SyncLog (start_log u rq ?src (length ps)) (clock s)]
        @ es @ [new_SyncLog (summary_log u rq ?src r ?d) (clock s + ?d)]"
    using l1 l2 l3 by simp
  moreover have "0 \<le> ?d" using f1 c2 by simp
  ultimately show ?thesis using n o by blast
qed

text \<open>
  C6 fails on the code. With the batch source \<open>csv\<close>, which the product schema admits,
  the log schema refuses the start entry (its \<open>source\<close> is one of api, web, system,
  sync): the handler answers 500 and the state is untouched, so the batch has neither a
  start entry nor a summary entry, and no item is processed.
\<close>

theorem sync_csv_source_rejected:
  "POST_sync admin0 rq0 \<lparr>b_products = Some [JObject widget], b_source = Some ''csv''\<rparr> (store0 [] 1000)
     = (Inl (Http 500 ''Server error during sync''), store0 [] 1000)"
  by code_simp

subsection \<open>A failure of one item\<close>

lemma lookup_failure_raises:
  "findOne_sku (i_sku it) s = (Inl e, s1) \<Longrightarrow> sync_object u src it s r = (Some e, s1, r)"
  by (simp add: sync_object_def)

lemma create_failure_raises:
  "findOne_sku (i_sku it) s = (Inr None, sa) \<Longrightarrow>
   save_product (new_product_errors it (new_Product (next_id sa) it (clock sa) src))
     (new_Product (next_id sa) it (clock sa) src) (sa\<lparr>next_id := next_id sa + 1\<rparr>) = (Inl e, s1) \<Longrightarrow>
   sync_object u src it s r = (Some e, s1, r)"
  by (simp add: sync_object_def Let_def)

lemma update_failure_raises:
  "findOne_sku (i_sku it) s = (Inr (Some ex), sa) \<Longrightarrow>
   save_product
     (product_errors ((assign ex it)
        \<lparr>p_lastSyncedAt := clock sa, p_syncSource := src, p_syncStatus := ''synced''\<rparr>))
     ((assign ex it)
        \<lparr>p_lastSyncedAt := clock sa, p_syncSource := src, p_syncStatus := ''synced''\<rparr>) sa
     = (Inl e, s1) \<Longrightarrow>
   sync_object u src it s r = (Some e, s1, r)"
  by (simp add: sync_object_def Let_def)

text \<open>
  For an element that is not \<open>null\<close> and a source the log schema admits: if the lookup
  or the persist step fails and the audit store accepts the error entry, the turn of the
  loop ends normally with \<open>errors\<close> bumped by one and no other counter changed, the loop
  goes on with the next element, and the entry appended has level error and holds the
  failure message (in its message and its details) and the offending element.
\<close>

lemma item_failure_isolated:
  assumes "fields_of x = Some it"
    and "src \<in> set source_enum"
    and "findOne_sku (i_sku it) s = (Inl e, s1) \<or>
      (\<exists>sa. findOne_sku (i_sku it) s = (Inr None, sa) \<and>
         save_product (new_product_errors it (new_Product (next_id sa) it (clock sa) src))
           (new_Product (next_id sa) it (clock sa) src) (sa\<lparr>next_id := next_id sa + 1\<rparr>)
           = (Inl e, s1)) \<or>
      (\<exists>sa ex. findOne_sku (i_sku it) s = (Inr (Some ex), sa) \<and>
         save_product
           (product_errors ((assign ex it)
              \<lparr>p_lastSyncedAt := clock sa, p_syncSource := src, p_syncStatus := ''synced''\<rparr>))
           ((assign ex it)
              \<lparr>p_lastSyncedAt := clock sa, p_syncSource := src, p_syncStatus := ''synced''\<rparr>) sa
           = (Inl e, s1))"
    and "accepts 1 (log_env s1)"
  shows "\<exists>s2 entry.
     sync_item u src x s r = (None, s2, r\<lparr>r_errors := r_errors r + 1\<rparr>) \<and>
     sync_loop u src (x # xs) s r = sync_loop u src xs s2 (r\<lparr>r_errors := r_errors r + 1\<rparr>) \<and>
     logs s2 = logs s1 @ [entry] \<and> products s2 = products s1 \<and>
     l_level entry = ''error'' \<and> l_operation entry = ''error'' \<and>
     l_details entry = Some (SyncErrorDetails (err_message e) x) \<and>
     l_message entry =
       ''Sync error for product SKU '' @ js_str (i_sku it) @ '': '' @ err_message e"
proof -
  from assms(3) have t: "sync_object u src it s r = (Some e, s1, r)"
  proof (elim disjE exE conjE)
    assume "findOne_sku (i_sku it) s = (Inl e, s1)"
    then show ?thesis by (rule lookup_failure_raises)
  next
    fix sa
    assume "findOne_sku (i_sku it) s = (Inr None, sa)"
      and "save_product (new_product_errors it (new_Product (next_id sa) it (clock sa) src))
           (new_Product (next_id sa) it (clock sa) src) (sa\<lparr>next_id := next_id sa + 1\<rparr>)
           = (Inl e, s1)"
    then show ?thesis by (rule create_failure_raises)
  next
    fix sa ex
    assume "findOne_sku (i_sku it) s = (Inr (Some ex), sa)"
      and "save_product
           (product_errors ((assign ex it)
              \<lparr>p_lastSyncedAt := clock sa, p_syncSource := src, p_syncStatus := ''synced''\<rparr>))
           ((assign ex it)
              \<lparr>p_lastSyncedAt := clock sa, p_syncSource := src, p_syncStatus := ''synced''\<rparr>) sa
           = (Inl e, s1)"
    then show ?thesis by (rule update_failure_raises)
  qed
  have v: "log_errors (error_log u src x e) = []"
    using assms(2) by (simp add: log_errors_error)
  let ?entry = "new_SyncLog (error_log u src x e) (clock s1)"
  let ?s2 = "s1\<lparr>log_env := snd (next_event (log_env s1)),
      clock := clock s1 + int (ev_elapsed (fst (next_event (log_env s1)))),
      logs := logs s1 @ [?entry]\<rparr>"
  note cl = createLog_valid [OF v assms(4)]
  have i: "sync_item u src x s r = (None, ?s2, r\<lparr>r_errors := r_errors r + 1\<rparr>)"
    using t cl assms(1) by (simp add: sync_item_def sync_try_def Let_def)
  have l: "sync_loop u src (x # xs) s r =
      sync_loop u src xs ?s2 (r\<lparr>r_errors := r_errors r + 1\<rparr>)"
    using i by simp
  have e: "l_level ?entry = ''error'' \<and> l_operation ?entry = ''error'' \<and>
     l_details ?entry = Some (SyncErrorDetails (err_message e) x) \<and>
     l_message ?entry =
       ''Sync error for product SKU '' @ js_str (i_sku it) @ '': '' @ err_message e"
    using assms(1) by (simp add: new_SyncLog_def error_log_def with_default_def sku_of_def)
  have "logs ?s2 = logs s1 @ [?entry] \<and> products ?s2 = products s1" by simp
  with i l e show ?thesis by blast
qed

text \<open>
  When the audit store rejects the error entry, the exception leaves the loop: the
  handler answers 500 and the next element is never processed.
\<close>

lemma audit_rejection_aborts:
  "fst (POST_sync admin0 rq0
          \<lparr>b_products = Some [JObject nosku, JObject widget], b_source = Some ''api''\<rparr>
          audit_down) = Inl (Http 500 ''Server error during sync'') \<and>
   products (snd (POST_sync admin0 rq0
      \<lparr>b_products = Some [JObject nosku, JObject widget], b_source = Some ''api''\<rparr>
      audit_down)) = []"
  by code_simp

text \<open>
  C3 fails on the code. The batch is \<open>[null, widget]\<close>, the source is \<open>api\<close> and both
  stores accept every call. Reading \<open>productData.sku\<close> of \<open>null\<close> throws in the \<open>try\<close>,
  so the lookup step of the first element fails; the \<open>catch\<close> bumps \<open>errors\<close> and then
  reads \<open>productData.sku\<close> again for the message of the error entry, which throws out
  of the loop. The handler answers 500 instead of a result summary, the log holds the
  start entry alone (no error entry, no summary), and the valid second element is
  never processed.
\<close>

theorem sync_null_item_aborts:
  "fst (POST_sync admin0 rq0
          \<lparr>b_products = Some [JNull, JObject widget], b_source = Some ''api''\<rparr>
          (store0 [] 1000)) = Inl (Http 500 ''Server error during sync'') \<and>
   products (snd (POST_sync admin0 rq0
      \<lparr>b_products = Some [JNull, JObject widget], b_source = Some ''api''\<rparr>
      (store0 [] 1000))) = [] \<and>
   map l_message (logs (snd (POST_sync admin0 rq0
      \<lparr>b_products = Some [JNull, JObject widget], b_source = Some ''api''\<rparr>
      (store0 [] 1000)))) = [''Bulk sync started for 2 products'']"
  by code_simp

subsection \<open>Runs on an empty store\<close>

text \<open>
  A batch of one new item creates it; the same batch again updates it; an item with no
  SKU beside a valid one gives one error and a summary of level warning; the empty
  batch gives the start entry and a summary with all counts zero.
\<close>

lemma scenario_first_run:
  "fst (POST_sync admin0 rq0 \<lparr>b_products = Some [JObject widget], b_source = Some ''api''\<rparr>
      (store0 [] 1000)) =
     Inr (\<lparr>r_created = 1, r_updated = 0, r_errors = 0, r_total = 1\<rparr>, 0) \<and>
   map p_sku (products (snd (POST_sync admin0 rq0
      \<lparr>b_products = Some [JObject widget], b_source = Some ''api''\<rparr> (store0 [] 1000)))) = [''A1''] \<and>
   map l_level (logs (snd (POST_sync admin0 rq0
      \<lparr>b_products = Some [JObject widget], b_source = Some ''api''\<rparr> (store0 [] 1000)))) =
     [''info'', ''success'', ''success'']"
  by code_simp

lemma scenario_second_run:
  "fst (POST_sync admin0 rq0 \<lparr>b_products = Some [JObject widget], b_source = Some ''api''\<rparr>
      (snd (POST_sync admin0 rq0 \<lparr>b_products = Some [JObject widget], b_source = Some ''api''\<rparr>
         (store0 [] 1000)))) =
     Inr (\<lparr>r_created = 0, r_updated = 1, r_errors = 0, r_total = 1\<rparr>, 0)"
  by code_simp

lemma scenario_missing_sku:
  "fst (POST_sync admin0 rq0 \<lparr>b_products = Some [JObject widget, JObject nosku], b_source = Some ''api''\<rparr>
      (store0 [] 1000)) =
     Inr (\<lparr>r_created = 1, r_updated = 0, r_errors = 1, r_total = 2\<rparr>, 0) \<and>
   map l_level (logs (snd (POST_sync admin0 rq0
      \<lparr>b_products = Some [JObject widget, JObject nosku], b_source = Some ''api''\<rparr> (store0 [] 1000)))) =
     [''info'', ''success'', ''error'', ''warning'']"
  by code_simp

lemma scenario_empty_batch:
  "fst (POST_sync admin0 rq0 \<lparr>b_products = Some [], b_source = None\<rparr> (store0 [] 1000)) =
     Inr (\<lparr>r_created = 0, r_updated = 0, r_errors = 0, r_total = 0\<rparr>, 0) \<and>
   map l_message (logs (snd (POST_sync admin0 rq0
      \<lparr>b_products = Some [], b_source = None\<rparr> (store0 [] 1000)))) =
     [''Bulk sync started for 0 products'',
      ''Bulk sync completed: 0 created, 0 updated, 0 errors'']"
  by code_simp

section \<open>Properties of the log queries\<close>

lemma export_filter_eq:
  "\<not> truthy (q_userId q) \<Longrightarrow> \<not> truthy (q_search q) \<Longrightarrow> export_filter q = list_filter q"
  by (simp add: export_filter_def list_filter_def pick_def)

text \<open>
  C4 fails on the code. The store holds two entries and the request asks for the text
  \<open>SYNC\<close>: the listing selects the one entry whose message contains it, the CSV export
  renders both entries. The export builds its filter without \<open>search\<close> (and without
  \<open>userId\<close>).
\<close>

theorem export_ignores_search:
  "map (l_message \<circ> fst) (page_docs lib0 (no_query\<lparr>q_search := Some ''SYNC''\<rparr>) two_logs) =
     [''Bulk sync started for 1 products''] \<and>
   fst (GET_export_csv lib0 (no_query\<lparr>q_search := Some ''SYNC''\<rparr>) two_logs) =
     Inr (csvHeader @
       ''1970-01-01,00:00:02,success,sync,product,'' @ [dquote] @ ''Nightly import done'' @
         [dquote] @ '',ann,api,'' @ [newline] @
       ''1970-01-01,00:00:01,info,sync,product,'' @ [dquote] @
         ''Bulk sync started for 1 products'' @ [dquote] @ '',root,api,'')"
  by code_simp

subsection \<open>Pagination\<close>

lemma pages_lengths:
  "0 < l \<Longrightarrow>
   (\<Sum>i = 1..m. length (take l (drop ((i - 1) * l) xs))) = min (m * l) (length xs)"
proof (induction m)
  case 0
  then show ?case by simp
next
  case (Suc m)
  then show ?case by (auto simp: min_def)
qed

lemma pages_concat:
  "concat (map (\<lambda>i. take l (drop ((i - 1) * l) xs)) [1..<Suc m]) = take (m * l) xs"
proof (induction m)
  case 0
  then show ?case by simp
next
  case (Suc m)
  have "take (Suc m * l) xs = take (m * l + l) xs" by (simp add: add.commute)
  also have "\<dots> = take (m * l) xs @ take l (drop (m * l) xs)" by (rule take_add)
  finally have "take (m * l) xs @ take l (drop (m * l) xs) = take (Suc m * l) xs" by simp
  moreover have "concat (map (\<lambda>i. take l (drop ((i - 1) * l) xs)) [1..<Suc (Suc m)]) =
      concat (map (\<lambda>i. take l (drop ((i - 1) * l) xs)) [1..<Suc m]) @ take l (drop (m * l) xs)"
    by simp
  ultimately show ?case using Suc by (simp only:)
qed

lemma ceiling_pages_cover:
  assumes "0 < limit"
  shows "n \<le> nat \<lceil>real n / real_of_int limit\<rceil> * nat limit"
proof -
  let ?c = "\<lceil>real n / real_of_int limit\<rceil>"
  have "real n / real_of_int limit \<le> of_int ?c" by (rule le_of_int_ceiling)
  moreover have "0 < real_of_int limit" using assms by simp
  ultimately have "real n \<le> of_int ?c * real_of_int limit"
    by (simp only: pos_divide_le_eq)
  then have "real_of_int (int n) \<le> real_of_int (?c * limit)" by simp
  then have i: "int n \<le> ?c * limit" by (simp only: of_int_le_iff)
  have "0 \<le> real n / real_of_int limit" using assms by simp
  then have c0: "0 \<le> ?c" by (simp add: ceiling_le_iff order_trans [OF _ le_of_int_ceiling])
  have "int (nat ?c * nat limit) = ?c * limit" using c0 assms by simp
  with i show ?thesis by linarith
qed

lemma length_matching: "length (matching L f s) = length (filter (matches L f) (logs s))"
  by (simp add: matching_def newest_first_def)

lemma GET_logs_success:
  assumes "GET_logs L q s = (Inr (docs, pg), s')"
  shows "cast_error L (list_filter q) = None \<and> accepts 2 (log_env s) \<and>
     0 \<le> (or_default (q_page q) 1 - 1) * or_default (q_limit q) 50 \<and>
     Inr docs = window ((or_default (q_page q) 1 - 1) * or_default (q_limit q) 50)
       (or_default (q_limit q) 50) (matching L (list_filter q) s) \<and>
     pg = \<lparr>pg_current = or_default (q_page q) 1,
           pg_pages = \<lceil>real (length (filter (matches L (list_filter q)) (logs s))) /
                        real_of_int (or_default (q_limit q) 50)\<rceil>,
           pg_total = length (filter (matches L (list_filter q)) (logs s)),
           pg_hasNext = (or_default (q_page q) 1 <
              \<lceil>real (length (filter (matches L (list_filter q)) (logs s))) /
                        real_of_int (or_default (q_limit q) 50)\<rceil>),
           pg_hasPrev = (or_default (q_page q) 1 > 1)\<rparr>"
  using assms
  by (cases "log_env s" rule: list.exhaust; cases "tl (log_env s)")
     (auto simp: GET_logs_def query_logs_def count_logs_def Let_def next_event_def accepts_def
        matching_def window_def numeral_2_eq_2
        split: option.splits prod.splits sum.splits if_splits)

lemma GET_logs_page:
  assumes "cast_error L (list_filter q) = None" and "accepts 2 (log_env s)"
    and "0 < or_default (q_limit q) 50" and "1 \<le> i"
  shows "page_docs L (q\<lparr>q_page := Some (int i)\<rparr>) s =
     take (nat (or_default (q_limit q) 50))
       (drop ((i - 1) * nat (or_default (q_limit q) 50)) (matching L (list_filter q) s))"
proof -
  have f: "list_filter (q\<lparr>q_page := Some (int i)\<rparr>) = list_filter q"
    by (simp add: list_filter_def)
  have p: "or_default (Some (int i)) 1 = int i"
    using assms(4) by (simp add: or_default_def)
  have k: "nat ((int i - 1) * or_default (q_limit q) 50) = (i - 1) * nat (or_default (q_limit q) 50)"
    using assms(3,4) by (simp add: nat_mult_distrib of_nat_diff)
  have sk: "\<not> (int i - 1) * or_default (q_limit q) 50 < 0"
    using assms(3,4) by (simp add: mult_less_0_iff)
  show ?thesis
    using assms(1,2,3) sk
    by (cases "log_env s" rule: list.exhaust; cases "tl (log_env s)")
       (auto simp: page_docs_def GET_logs_def query_logs_def count_logs_def Let_def f p k
          next_event_def accepts_def matching_def window_def numeral_2_eq_2
          split: option.splits prod.splits sum.splits)
qed

text \<open>
  C8, amended. For every filter and every page size that is positive, that is a \<open>limit\<close>
  parameter that parses to a positive number or to nothing (the default of 50 is then
  used): whenever the listing answers, its pagination
  reports the ceiling of total over page size as \<open>pages\<close>, the number of matching
  entries as \<open>total\<close>, \<open>hasNext\<close> exactly when the current page is below \<open>pages\<close> and
  \<open>hasPrev\<close> exactly when it is above 1; the pages 1 to \<open>pages\<close> of the same request,
  one after the other, are exactly the matching entries, newest first, so their lengths
  add up to \<open>total\<close>.
\<close>

theorem listing_pagination:
  assumes "0 < or_default (q_limit q) 50" and "GET_logs L q s = (Inr (docs, pg), s')"
  shows "pg_pages pg = \<lceil>real (pg_total pg) / real_of_int (or_default (q_limit q) 50)\<rceil> \<and>
     pg_total pg = length (filter (matches L (list_filter q)) (logs s)) \<and>
     pg_current pg = or_default (q_page q) 1 \<and>
     pg_hasNext pg = (pg_current pg < pg_pages pg) \<and>
     pg_hasPrev pg = (1 < pg_current pg) \<and>
     concat (map (\<lambda>i. page_docs L (q\<lparr>q_page := Some (int i)\<rparr>) s) [1..<Suc (nat (pg_pages pg))])
       = map (populate (users s)) (newest_first (filter (matches L (list_filter q)) (logs s))) \<and>
     (\<Sum>i = 1..nat (pg_pages pg). length (page_docs L (q\<lparr>q_page := Some (int i)\<rparr>) s))
       = pg_total pg"
proof -
  let ?l = "or_default (q_limit q) 50"
  let ?all = "matching L (list_filter q) s"
  let ?n = "length (filter (matches L (list_filter q)) (logs s))"
  note g = GET_logs_success [OF assms(2)]
  from g have c: "cast_error L (list_filter q) = None" and a: "accepts 2 (log_env s)"
    by simp_all
  from g have pg: "pg_pages pg = \<lceil>real ?n / real_of_int ?l\<rceil>" "pg_total pg = ?n"
    "pg_current pg = or_default (q_page q) 1"
    "pg_hasNext pg = (pg_current pg < pg_pages pg)" "pg_hasPrev pg = (1 < pg_current pg)"
    by simp_all
  let ?m = "nat (pg_pages pg)"
  have cover: "length ?all \<le> ?m * nat ?l"
    using ceiling_pages_cover [OF assms(1), of ?n] pg(1) by (simp add: length_matching)
  have page: "\<And>i. 1 \<le> i \<Longrightarrow>
      page_docs L (q\<lparr>q_page := Some (int i)\<rparr>) s = take (nat ?l) (drop ((i - 1) * nat ?l) ?all)"
    by (rule GET_logs_page [OF c a assms(1)])
  have "map (\<lambda>i. page_docs L (q\<lparr>q_page := Some (int i)\<rparr>) s) [1..<Suc ?m] =
      map (\<lambda>i. take (nat ?l) (drop ((i - 1) * nat ?l) ?all)) [1..<Suc ?m]"
    by (rule map_cong [OF refl], rule page, auto)
  then have "concat (map (\<lambda>i. page_docs L (q\<lparr>q_page := Some (int i)\<rparr>) s) [1..<Suc ?m]) =
      concat (map (\<lambda>i. take (nat ?l) (drop ((i - 1) * nat ?l) ?all)) [1..<Suc ?m])"
    by (simp only:)
  also have "\<dots> = take (?m * nat ?l) ?all" by (rule pages_concat)
  also have "\<dots> = ?all" using cover by simp
  finally have cc: "concat (map (\<lambda>i. page_docs L (q\<lparr>q_page := Some (int i)\<rparr>) s) [1..<Suc ?m])
      = map (populate (users s)) (newest_first (filter (matches L (list_filter q)) (logs s)))"
    by (simp add: matching_def)
  have "(\<Sum>i = 1..?m. length (page_docs L (q\<lparr>q_page := Some (int i)\<rparr>) s)) =
      (\<Sum>i = 1..?m. length (take (nat ?l) (drop ((i - 1) * nat ?l) ?all)))"
    by (rule sum.cong [OF refl], rule arg_cong [of _ _ length], rule page, auto)
  also have "\<dots> = min (?m * nat ?l) (length ?all)"
    using assms(1) by (intro pages_lengths) simp
  also have "\<dots> = ?n" using cover by (simp add: length_matching)
  finally have ss: "(\<Sum>i = 1..?m. length (page_docs L (q\<lparr>q_page := Some (int i)\<rparr>) s)) = pg_total pg"
    using pg(2) by simp
  show ?thesis using pg cc ss by simp
qed

theorem listing_pagination_witness:
  "0 < or_default (q_limit error_page) 50 \<and>
   fst (GET_logs lib0 error_page five_logs) =
     Inr ([(log_of 5000 ''error'' ''e3'' None, None), (log_of 3000 ''error'' ''e2'' None, None)],
          \<lparr>pg_current = 1, pg_pages = 2, pg_total = 3, pg_hasNext = True, pg_hasPrev = False\<rparr>) \<and>
   (\<Sum>i = 1..2. length (page_docs lib0 (error_page\<lparr>q_page := Some (int i)\<rparr>) five_logs)) = 3"
proof -
  let ?docs = "[(log_of 5000 ''error'' ''e3'' None, None), (log_of 3000 ''error'' ''e2'' None, None)]"
  let ?pg = "\<lparr>pg_current = 1, pg_pages = 2, pg_total = 3, pg_hasNext = True, pg_hasPrev = False\<rparr>"
  have h1: "0 < or_default (q_limit error_page) 50"
    by (simp add: error_page_def no_query_def or_default_def)
  have h2: "fst (GET_logs lib0 error_page five_logs) = Inr (?docs, ?pg)"
    by code_simp
  then have h2': "GET_logs lib0 error_page five_logs =
      (Inr (?docs, ?pg), snd (GET_logs lib0 error_page five_logs))"
    by (metis prod.collapse)
  from listing_pagination [OF h1 h2']
  have "(\<Sum>i = 1..nat (pg_pages ?pg).
      length (page_docs lib0 (error_page\<lparr>q_page := Some (int i)\<rparr>) five_logs)) = pg_total ?pg"
    by blast
  then have "(\<Sum>i = 1..2.
      length (page_docs lib0 (error_page\<lparr>q_page := Some (int i)\<rparr>) five_logs)) = 3"
    by simp
  with h1 h2 show ?thesis by blast
qed

text \<open>
  C8 as stated, for every page size, fails at a negative one: the handler has no guard on
  \<open>limit\<close>. With three matching entries and \<open>limit = -2\<close>, the query takes the size of the
  limit and returns two entries on page 1, while the pagination reports
  \<open>pages = \<lceil>3 / -2\<rceil> = -1\<close> and \<open>hasNext = false\<close>: there is no page from 1 to \<open>pages\<close>, so
  the pages together hold 0 entries, not the 3 of \<open>total\<close>.
\<close>

theorem listing_negative_limit_counterexample:
  "or_default (q_limit (error_page\<lparr>q_limit := Some (- 2)\<rparr>)) 50 = - 2 \<and>
   fst (GET_logs lib0 (error_page\<lparr>q_limit := Some (- 2)\<rparr>) five_logs) =
     Inr ([(log_of 5000 ''error'' ''e3'' None, None), (log_of 3000 ''error'' ''e2'' None, None)],
          \<lparr>pg_current = 1, pg_pages = - 1, pg_total = 3, pg_hasNext = False,
           pg_hasPrev = False\<rparr>) \<and>
   (\<Sum>i = 1..nat (- 1).
      length (page_docs lib0 (error_page\<lparr>q_limit := Some (- 2), q_page := Some (int i)\<rparr>)
        five_logs)) = 0"
proof -
  have "or_default (q_limit (error_page\<lparr>q_limit := Some (- 2)\<rparr>)) 50 = - 2"
    by (simp add: or_default_def)
  moreover have "fst (GET_logs lib0 (error_page\<lparr>q_limit := Some (- 2)\<rparr>) five_logs) =
     Inr ([(log_of 5000 ''error'' ''e3'' None, None), (log_of 3000 ''error'' ''e2'' None, None)],
          \<lparr>pg_current = 1, pg_pages = - 1, pg_total = 3, pg_hasNext = False,
           pg_hasPrev = False\<rparr>)"
    by code_simp
  ultimately show ?thesis by simp
qed

subsection \<open>CSV rows\<close>

lemma csv_unescape_escaped:
  "csv_unescape (replace_char dquote [dquote, dquote] m @ [dquote]) = Some m"
proof (induction m)
  case Nil
  then show ?case by (simp add: replace_char_def)
next
  case (Cons x xs)
  obtain c cs where r: "replace_char dquote [dquote, dquote] xs @ [dquote] = c # cs"
    by (cases "replace_char dquote [dquote, dquote] xs @ [dquote]") auto
  have e: "replace_char dquote [dquote, dquote] (x # xs) =
      (if x = dquote then [dquote, dquote] else [x]) @ replace_char dquote [dquote, dquote] xs"
    by (simp add: replace_char_def)
  show ?case
  proof (cases "x = dquote")
    case True
    then show ?thesis using Cons e by simp
  next
    case False
    then show ?thesis using Cons e r by simp
  qed
qed

lemma csv_unquote_field:
  "csv_unquote ([dquote] @ replace_char dquote [dquote, dquote] m @ [dquote]) = Some m"
  by (simp add: csv_unquote_def csv_unescape_escaped)

lemma csv_rows_each:
  "csv_rows docs = Inr rows \<Longrightarrow> list_all2 (\<lambda>d r. csv_row d = Inr r) docs rows"
  by (induction docs arbitrary: rows) (auto split: sum.splits)

lemma csv_row_fields:
  "csv_row d = Inr r \<Longrightarrow> \<exists>date time. r = join '','' (csv_fields date time d)"
  by (auto simp: csv_row_def split: sum.splits prod.splits)

lemma user_column_cases:
  "user_column d =
     (case snd d of Some n \<Rightarrow> n
      | None \<Rightarrow> (case l_username (fst d) of None \<Rightarrow> ''System''
                 | Some n \<Rightarrow> if n = [] then ''System'' else n))"
  by (simp add: user_column_def truthy_def with_default_def split: option.splits)

text \<open>
  C7. Whenever the export answers, its text is the header followed by one row per
  selected entry, and in each row the sixth field is the message in double quotes with
  every double quote of the message doubled (a CSV reader gets the message back), and
  the seventh field is the user name of the populated user, else the entry's own user
  name, else the text \<open>System\<close>. The message \<open>He said "hi"\<close> is rendered as
  \<open>"He said ""hi"""\<close>.
\<close>

theorem export_row_message_and_user:
  assumes "GET_export_csv L q s = (Inr text, s')"
  shows "(\<exists>docs rows.
     query_logs L (export_filter q) 0 5000 s = (Inr docs, s') \<and>
     text = csvHeader @ join [newline] rows \<and> length rows = length docs \<and>
     (\<forall>i<length docs. \<exists>date time.
        rows ! i = join '','' (csv_fields date time (docs ! i)) \<and>
        csv_fields date time (docs ! i) ! 5 =
          [dquote] @ replace_char dquote [dquote, dquote] (l_message (fst (docs ! i))) @ [dquote] \<and>
        csv_unquote (csv_fields date time (docs ! i) ! 5) = Some (l_message (fst (docs ! i))) \<and>
        csv_fields date time (docs ! i) ! 6 =
          (case snd (docs ! i) of Some n \<Rightarrow> n
           | None \<Rightarrow> (case l_username (fst (docs ! i)) of None \<Rightarrow> ''System''
                      | Some n \<Rightarrow> if n = [] then ''System'' else n)))) \<and>
     [dquote] @ replace_char dquote [dquote, dquote] (''He said '' @ [dquote] @ ''hi'' @ [dquote])
        @ [dquote] =
       [dquote] @ ''He said '' @ [dquote, dquote] @ ''hi'' @ [dquote, dquote] @ [dquote]"
proof -
  from assms obtain docs rows where
    qd: "query_logs L (export_filter q) 0 5000 s = (Inr docs, s')"
    and rs: "csv_rows docs = Inr rows"
    and tx: "text = csvHeader @ join [newline] rows"
    by (auto simp: GET_export_csv_def split: prod.splits sum.splits)
  note each = csv_rows_each [OF rs]
  then have len: "length rows = length docs" by (simp add: list_all2_lengthD)
  have "\<exists>date time.
        rows ! i = join '','' (csv_fields date time (docs ! i)) \<and>
        csv_fields date time (docs ! i) ! 5 =
          [dquote] @ replace_char dquote [dquote, dquote] (l_message (fst (docs ! i))) @ [dquote] \<and>
        csv_unquote (csv_fields date time (docs ! i) ! 5) = Some (l_message (fst (docs ! i))) \<and>
        csv_fields date time (docs ! i) ! 6 =
          (case snd (docs ! i) of Some n \<Rightarrow> n
           | None \<Rightarrow> (case l_username (fst (docs ! i)) of None \<Rightarrow> ''System''
                      | Some n \<Rightarrow> if n = [] then ''System'' else n))"
    if "i < length docs" for i
  proof -
    from each that have "csv_row (docs ! i) = Inr (rows ! i)"
      by (simp add: list_all2_conv_all_nth)
    from csv_row_fields [OF this] obtain date time where
      r: "rows ! i = join '','' (csv_fields date time (docs ! i))" by blast
    have f5: "csv_fields date time (docs ! i) ! 5 =
        [dquote] @ replace_char dquote [dquote, dquote] (l_message (fst (docs ! i))) @ [dquote]"
      by (simp add: csv_fields_def)
    have f6: "csv_fields date time (docs ! i) ! 6 = user_column (docs ! i)"
      by (simp add: csv_fields_def)
    show ?thesis
      using r f5 f6 csv_unquote_field [of "l_message (fst (docs ! i))"]
        user_column_cases [of "docs ! i"]
      by (intro exI [of _ date] exI [of _ time]) (simp only: simp_thms)
  qed
  moreover have "[dquote] @ replace_char dquote [dquote, dquote]
        (''He said '' @ [dquote] @ ''hi'' @ [dquote]) @ [dquote] =
       [dquote] @ ''He said '' @ [dquote, dquote] @ ''hi'' @ [dquote, dquote] @ [dquote]"
    by (simp add: replace_char_def dquote_def)
  moreover note qd tx len
  ultimately show ?thesis by (intro conjI exI [of _ docs] exI [of _ rows] allI impI)
qed

theorem export_row_message_and_user_witness:
  "GET_export_csv lib0 no_query quote_store =
     (Inr (csvHeader @ ''1970-01-01,00:00:01,info,sync,product,'' @
        [dquote] @ ''He said '' @ [dquote, dquote] @ ''hi'' @ [dquote, dquote] @ [dquote] @
        '',System,api,''), quote_store) \<and>
   (\<exists>docs (rows :: string list). query_logs lib0 (export_filter no_query) 0 5000 quote_store =
        (Inr docs, quote_store) \<and> length rows = length docs)"
proof -
  let ?text = "csvHeader @ ''1970-01-01,00:00:01,info,sync,product,'' @
        [dquote] @ ''He said '' @ [dquote, dquote] @ ''hi'' @ [dquote, dquote] @ [dquote] @
        '',System,api,''"
  have h: "GET_export_csv lib0 no_query quote_store = (Inr ?text, quote_store)"
    by code_simp
  from export_row_message_and_user [OF h] obtain docs and rows :: "string list" where
    "query_logs lib0 (export_filter no_query) 0 5000 quote_store = (Inr docs, quote_store)"
    and "length rows = length docs" by blast
  then have "\<exists>docs (rows :: string list).
      query_logs lib0 (export_filter no_query) 0 5000 quote_store = (Inr docs, quote_store) \<and>
      length rows = length docs" by blast
  with h show ?thesis by (rule conjI)
qed

subsection \<open>The handlers answer\<close>

text \<open>
  An ISO timestamp always has its \<open>T\<close>, so the rendering of a row never throws: the
  export answers whenever its filter casts and the store accepts the query. The listing
  answers whenever its filter casts, the store accepts the two calls and the skip is
  not negative.
\<close>

lemma split_on_nonempty: "split_on c s \<noteq> []"
  by (induction s) (auto split: list.splits)

lemma split_on_two: "c \<in> set s \<Longrightarrow> \<exists>a b r. split_on c s = a # b # r"
proof (induction s)
  case Nil
  then show ?case by simp
next
  case (Cons x xs)
  show ?case
  proof (cases "x = c")
    case True
    obtain b r where "split_on c xs = b # r"
      using split_on_nonempty [of c xs] by (cases "split_on c xs") auto
    with True show ?thesis by simp
  next
    case False
    with Cons.prems have "c \<in> set xs" by simp
    from Cons.IH [OF this] obtain a b r where "split_on c xs = a # b # r" by blast
    with False show ?thesis by simp
  qed
qed

lemma iso_date_time_total: "\<exists>d tm. iso_date_time (toISOString t) = Inr (d, tm)"
proof -
  have "CHR ''T'' \<in> set (toISOString t)"
    by (cases "civil_from_days (t div day_ms)") (simp add: toISOString_def Let_def)
  from split_on_two [OF this] obtain a b r where
    "split_on CHR ''T'' (toISOString t) = a # b # r" by blast
  then show ?thesis by (simp add: iso_date_time_def)
qed

lemma csv_row_total: "\<exists>r. csv_row d = Inr r"
  using iso_date_time_total [of "l_createdAt (fst d)"] by (auto simp: csv_row_def)

lemma csv_rows_total: "\<exists>rs. csv_rows ds = Inr rs"
proof (induction ds)
  case Nil
  then show ?case by simp
next
  case (Cons d ds)
  from csv_row_total [of d] obtain r where "csv_row d = Inr r" by blast
  with Cons show ?case by auto
qed

lemma export_answers:
  assumes "cast_error L (export_filter q) = None" and "accepts 1 (log_env s)"
  shows "\<exists>text s'. GET_export_csv L q s = (Inr text, s')"
proof -
  obtain ev rest where ne: "next_event (log_env s) = (ev, rest)"
    by (cases "next_event (log_env s)")
  have f0: "ev_fault ev = None"
    using assms(2) ne by (cases "log_env s") (auto simp: next_event_def accepts_def)
  let ?s1 = "s\<lparr>log_env := rest, clock := clock s + int (ev_elapsed ev)\<rparr>"
  have "\<exists>docs. query_logs L (export_filter q) 0 5000 s = (Inr docs, ?s1)"
    using assms(1) ne f0 by (simp add: query_logs_def window_def)
  then obtain docs where qd: "query_logs L (export_filter q) 0 5000 s = (Inr docs, ?s1)"
    by blast
  from csv_rows_total [of docs] obtain rs where "csv_rows docs = Inr rs" by blast
  with qd show ?thesis by (simp add: GET_export_csv_def)
qed

lemma listing_answers:
  assumes "cast_error L (list_filter q) = None" and "accepts 2 (log_env s)"
    and "0 \<le> (or_default (q_page q) 1 - 1) * or_default (q_limit q) 50"
  shows "\<exists>docs pg s'. GET_logs L q s = (Inr (docs, pg), s')"
  using assms
  by (cases "log_env s" rule: list.exhaust; cases "tl (log_env s)")
     (auto simp: GET_logs_def query_logs_def count_logs_def Let_def next_event_def accepts_def
        window_def numeral_2_eq_2 split: option.splits prod.splits sum.splits)

end
